theory Spec2Isabelle
  imports Main "HOL-Library.Word"
begin

unbundle bit_operations_syntax

section \<open>The virtual host controller of usb-vhci-hcd.c\<close>

text \<open>
  A shallow embedding of the transfer and port state machine of
  \<^verbatim>\<open>src/usb-vhci-hcd.c\<close>. The driver is embedded as it compiles without
  \<^verbatim>\<open>OLD_GIVEBACK_MECH\<close> (kernels from 2.6.24 on): that is the build in which
  \<^verbatim>\<open>maybe_set_status\<close> is the compare-and-exchange on the private status field
  and \<^verbatim>\<open>usb_hcd_giveback_urb\<close> takes the status as an argument.

  Every function works on the controller state with the controller's spin lock
  held, so a call is one step on that state. \<^verbatim>\<open>vhci_urb_giveback\<close> releases the lock
  while the USB core runs the completion handler of the URB; the handler belongs to
  the driver that owns the URB and is taken to leave the controller as it is until
  the call is over. What a call does to the world outside the controller is
  returned as a list of effects: a URB handed back to the USB core with a status, a
  wake-up of the work queue, a request to poll the root hub.
\<close>

subsection \<open>Machine integers and constants of the kernel headers\<close>

type_synonym u8 = "8 word"
type_synonym u16 = "16 word"
type_synonym u32 = "32 word"

text \<open>Error numbers of \<^verbatim>\<open>errno.h\<close>; the driver returns them negated.\<close>

abbreviation ENOENT :: int where "ENOENT \<equiv> 2"
abbreviation EINTR :: int where "EINTR \<equiv> 4"
abbreviation ENOMEM :: int where "ENOMEM \<equiv> 12"
abbreviation EINVAL :: int where "EINVAL \<equiv> 22"
abbreviation EPIPE :: int where "EPIPE \<equiv> 32"
abbreviation ENODATA :: int where "ENODATA \<equiv> 61"
abbreviation EPROTO :: int where "EPROTO \<equiv> 71"
abbreviation ESHUTDOWN :: int where "ESHUTDOWN \<equiv> 108"
abbreviation ETIMEDOUT :: int where "ETIMEDOUT \<equiv> 110"
abbreviation EINPROGRESS :: int where "EINPROGRESS \<equiv> 115"
abbreviation ECANCELED :: int where "ECANCELED \<equiv> 125"
abbreviation ERESTARTSYS :: int where "ERESTARTSYS \<equiv> 512"

text \<open>
  Port status and port change bits (\<^verbatim>\<open>wPortStatus\<close>, \<^verbatim>\<open>wPortChange\<close>) of the hub class,
  with the values of \<^verbatim>\<open>linux/usb/ch11.h\<close>.
\<close>

definition USB_PORT_STAT_CONNECTION :: u16 where "USB_PORT_STAT_CONNECTION = 0x0001"
definition USB_PORT_STAT_ENABLE :: u16 where "USB_PORT_STAT_ENABLE = 0x0002"
definition USB_PORT_STAT_SUSPEND :: u16 where "USB_PORT_STAT_SUSPEND = 0x0004"
definition USB_PORT_STAT_OVERCURRENT :: u16 where "USB_PORT_STAT_OVERCURRENT = 0x0008"
definition USB_PORT_STAT_RESET :: u16 where "USB_PORT_STAT_RESET = 0x0010"
definition USB_PORT_STAT_POWER :: u16 where "USB_PORT_STAT_POWER = 0x0100"
definition USB_PORT_STAT_LOW_SPEED :: u16 where "USB_PORT_STAT_LOW_SPEED = 0x0200"
definition USB_PORT_STAT_HIGH_SPEED :: u16 where "USB_PORT_STAT_HIGH_SPEED = 0x0400"

definition USB_PORT_STAT_C_CONNECTION :: u16 where "USB_PORT_STAT_C_CONNECTION = 0x0001"
definition USB_PORT_STAT_C_ENABLE :: u16 where "USB_PORT_STAT_C_ENABLE = 0x0002"
definition USB_PORT_STAT_C_SUSPEND :: u16 where "USB_PORT_STAT_C_SUSPEND = 0x0004"
definition USB_PORT_STAT_C_OVERCURRENT :: u16 where "USB_PORT_STAT_C_OVERCURRENT = 0x0008"
definition USB_PORT_STAT_C_RESET :: u16 where "USB_PORT_STAT_C_RESET = 0x0010"


text \<open>Feature selectors of the hub class (\<^verbatim>\<open>wValue\<close> of a feature request).\<close>

definition C_HUB_LOCAL_POWER :: u16 where "C_HUB_LOCAL_POWER = 0"
definition C_HUB_OVER_CURRENT :: u16 where "C_HUB_OVER_CURRENT = 1"

definition USB_PORT_FEAT_CONNECTION :: u16 where "USB_PORT_FEAT_CONNECTION = 0"
definition USB_PORT_FEAT_ENABLE :: u16 where "USB_PORT_FEAT_ENABLE = 1"
definition USB_PORT_FEAT_SUSPEND :: u16 where "USB_PORT_FEAT_SUSPEND = 2"
definition USB_PORT_FEAT_OVER_CURRENT :: u16 where "USB_PORT_FEAT_OVER_CURRENT = 3"
definition USB_PORT_FEAT_RESET :: u16 where "USB_PORT_FEAT_RESET = 4"
definition USB_PORT_FEAT_POWER :: u16 where "USB_PORT_FEAT_POWER = 8"
definition USB_PORT_FEAT_LOWSPEED :: u16 where "USB_PORT_FEAT_LOWSPEED = 9"
definition USB_PORT_FEAT_HIGHSPEED :: u16 where "USB_PORT_FEAT_HIGHSPEED = 10"
definition USB_PORT_FEAT_C_CONNECTION :: u16 where "USB_PORT_FEAT_C_CONNECTION = 16"
definition USB_PORT_FEAT_C_ENABLE :: u16 where "USB_PORT_FEAT_C_ENABLE = 17"
definition USB_PORT_FEAT_C_SUSPEND :: u16 where "USB_PORT_FEAT_C_SUSPEND = 18"
definition USB_PORT_FEAT_C_OVER_CURRENT :: u16 where "USB_PORT_FEAT_C_OVER_CURRENT = 19"
definition USB_PORT_FEAT_C_RESET :: u16 where "USB_PORT_FEAT_C_RESET = 20"
definition USB_PORT_FEAT_INDICATOR :: u16 where "USB_PORT_FEAT_INDICATOR = 22"


text \<open>
  Root hub requests as the USB core encodes them in \<^verbatim>\<open>typeReq\<close>
  (\<^verbatim>\<open>(bRequestType << 8) | bRequest\<close>).
\<close>

definition ClearHubFeature :: u16 where "ClearHubFeature = 0x2001"
definition ClearPortFeature :: u16 where "ClearPortFeature = 0x2301"
definition GetHubDescriptor :: u16 where "GetHubDescriptor = 0xa006"
definition GetHubStatus :: u16 where "GetHubStatus = 0xa000"
definition GetPortStatus :: u16 where "GetPortStatus = 0xa300"
definition SetHubFeature :: u16 where "SetHubFeature = 0x2003"
definition SetPortFeature :: u16 where "SetPortFeature = 0x2303"


text \<open>
  Modelled from the spec: \<^verbatim>\<open>USB_VHCI_PORT_STAT_FLAG_RESUMING\<close> is declared in the
  driver's header \<^verbatim>\<open>usb-vhci.h\<close>, which is not among the sources. The spec names it
  as the one driver-private port flag, "resuming in progress"; it is taken as the
  lowest bit of \<^verbatim>\<open>port_flags\<close>.
\<close>

definition USB_VHCI_PORT_STAT_FLAG_RESUMING :: u8 where
  "USB_VHCI_PORT_STAT_FLAG_RESUMING = 0x01"

subsection \<open>Transfers\<close>

datatype pipe_type = PIPE_ISOCHRONOUS | PIPE_INTERRUPT | PIPE_CONTROL | PIPE_BULK

text \<open>
  The setup packet of a control transfer (\<^verbatim>\<open>struct usb_ctrlrequest\<close>); the 16-bit
  fields hold the values \<^verbatim>\<open>le16_to_cpu\<close> returns.
\<close>

record usb_ctrlrequest =
  bRequestType :: u8
  bRequest :: u8
  cmd_wValue :: u16
  cmd_wIndex :: u16
  cmd_wLength :: u16

record usb_iso_packet_descriptor =
  iso_offset :: int
  iso_length :: int
  iso_actual_length :: int
  iso_status :: int

text \<open>
  The fields of \<^verbatim>\<open>struct urb\<close> the driver reads or writes. \<open>urb_ptr\<close> is the address
  of the structure: the handle user space sees, and what the list searches compare.
  The pipe is kept as the four values the \<^verbatim>\<open>usb_pipe...\<close> macros extract from it. A
  buffer pointer is \<open>None\<close> when it is \<^verbatim>\<open>NULL\<close>.
\<close>

record urb =
  urb_ptr :: nat
  pipe_type :: pipe_type
  pipe_in :: bool
  pipe_device :: u8
  pipe_endpoint :: u8
  transfer_buffer :: "u8 list option"
  transfer_buffer_length :: int
  setup_packet :: "usb_ctrlrequest option"
  interval :: int
  number_of_packets :: int
  iso_frame_desc :: "usb_iso_packet_descriptor list"
  actual_length :: int
  error_count :: int

text \<open>
  \<^verbatim>\<open>struct vhci_urb_priv\<close>: the URB and the private completion status. The list
  linkage \<^verbatim>\<open>urbp_list\<close> is the position of the entry in one of the four lists below.
\<close>

record vhci_urb_priv =
  urbp_urb :: urb
  urbp_status :: int

subsection \<open>Ports and the controller\<close>

datatype vhci_rh_state = VHCI_RH_RESET | VHCI_RH_SUSPENDED | VHCI_RH_RUNNING

record vhci_port =
  port_status :: u16
  port_change :: u16
  port_flags :: u8

text \<open>
  \<^verbatim>\<open>struct vhci\<close>. The two \<^verbatim>\<open>u8\<close> counters are natural numbers; where the code
  assigns to one, the truncation to eight bits is written out. \<open>ports\<close> is the
  array of \<open>port_count\<close> ports that \<^verbatim>\<open>vhci_start\<close> allocates.
\<close>

record vhci =
  rh_state :: vhci_rh_state
  ports :: "vhci_port list"
  port_count :: nat
  port_sched_offset :: nat
  port_update :: u32
  frame_num :: int
  urbp_list_inbox :: "vhci_urb_priv list"
  urbp_list_fetched :: "vhci_urb_priv list"
  urbp_list_cancel :: "vhci_urb_priv list"
  urbp_list_canceling :: "vhci_urb_priv list"

text \<open>What a call does outside the controller state.\<close>

datatype effect =
  Giveback urb int
| WorkEvent
| PollRhStatus

text \<open>
  \<^verbatim>\<open>vhci_start\<close>, the part that initialises the controller: \<^verbatim>\<open>kzalloc\<close> gives
  \<open>conf_port_count\<close> ports with every register zero (\<^verbatim>\<open>ioc_register\<close> refuses a
  port count above 31).
\<close>

definition vhci_start :: "nat \<Rightarrow> vhci" where
  "vhci_start conf_port_count =
     \<lparr>rh_state = VHCI_RH_RUNNING,
      ports = replicate conf_port_count \<lparr>port_status = 0, port_change = 0, port_flags = 0\<rparr>,
      port_count = conf_port_count,
      port_sched_offset = 0,
      port_update = 0,
      frame_num = 0,
      urbp_list_inbox = [],
      urbp_list_fetched = [],
      urbp_list_cancel = [],
      urbp_list_canceling = []\<rparr>"

subsection \<open>Completion status and give-back\<close>

text \<open>
  \<^verbatim>\<open>maybe_set_status\<close>: \<^verbatim>\<open>atomic_cmpxchg(&urbp->status, -EINPROGRESS, status)\<close>.
\<close>

definition maybe_set_status :: "vhci_urb_priv \<Rightarrow> int \<Rightarrow> vhci_urb_priv" where
  "maybe_set_status urbp status =
     (if urbp_status urbp = - EINPROGRESS then urbp\<lparr>urbp_status := status\<rparr> else urbp)"

text \<open>
  \<^verbatim>\<open>list_del(&urbp->urbp_list)\<close> takes the entry out of the list it is linked into.
  An entry is known by the address of its URB; the entry is dropped from each of
  the four lists, which is the same thing as long as a URB is linked into one list
  only (the USB core refuses to submit a URB that is still in flight).
\<close>

definition list_del :: "vhci_urb_priv \<Rightarrow> vhci \<Rightarrow> vhci" where
  "list_del urbp vhc =
     (let others = filter (\<lambda>entry. urb_ptr (urbp_urb entry) \<noteq> urb_ptr (urbp_urb urbp)) in
      vhc\<lparr>urbp_list_inbox := others (urbp_list_inbox vhc),
          urbp_list_fetched := others (urbp_list_fetched vhc),
          urbp_list_cancel := others (urbp_list_cancel vhc),
          urbp_list_canceling := others (urbp_list_canceling vhc)\<rparr>)"

text \<open>
  \<^verbatim>\<open>vhci_urb_giveback\<close>: reads the private status, unlinks the entry and hands the
  URB to \<^verbatim>\<open>usb_hcd_giveback_urb\<close> with that status.
\<close>

definition vhci_urb_giveback :: "vhci \<Rightarrow> vhci_urb_priv \<Rightarrow> vhci \<times> effect list" where
  "vhci_urb_giveback vhc urbp =
     (let status = urbp_status urbp in
      (list_del urbp vhc, [Giveback (urbp_urb urbp) status]))"

subsection \<open>Submission and cancellation\<close>

text \<open>
  \<^verbatim>\<open>vhci_urb_enqueue\<close>. \<open>urbp_alloc\<close> tells whether \<^verbatim>\<open>kzalloc\<close> returned memory and
  \<open>retval\<close> is what \<^verbatim>\<open>usb_hcd_link_urb_to_ep\<close> returns. \<^verbatim>\<open>kzalloc\<close> returns zeroed
  memory and the function assigns \<^verbatim>\<open>urbp->urb\<close> only, so the status of the new
  entry is 0.
\<close>

definition vhci_urb_enqueue :: "vhci \<Rightarrow> urb \<Rightarrow> bool \<Rightarrow> int \<Rightarrow> int \<times> vhci \<times> effect list" where
  "vhci_urb_enqueue vhc urb urbp_alloc retval =
     (if transfer_buffer urb = None \<and> transfer_buffer_length urb \<noteq> 0 then (- EINVAL, vhc, [])
      else if \<not> urbp_alloc then (- ENOMEM, vhc, [])
      else
        let urbp = \<lparr>urbp_urb = urb, urbp_status = 0\<rparr> in
        if retval \<noteq> 0 then (retval, vhc, [])
        else (0, vhc\<lparr>urbp_list_inbox := urbp_list_inbox vhc @ [urbp]\<rparr>, [WorkEvent]))"

text \<open>
  \<^verbatim>\<open>vhci_urb_dequeue\<close>. \<open>urb\<close> is the address of the URB to cancel and \<open>retval\<close> is
  what \<^verbatim>\<open>usb_hcd_check_unlink_urb\<close> returns.
\<close>

definition vhci_urb_dequeue :: "vhci \<Rightarrow> nat \<Rightarrow> int \<Rightarrow> int \<times> vhci \<times> effect list" where
  "vhci_urb_dequeue vhc urb retval =
     (if retval \<noteq> 0 then (retval, vhc, [])
      else
        case find (\<lambda>entry. urb_ptr (urbp_urb entry) = urb) (urbp_list_inbox vhc) of
          Some urbp \<Rightarrow>
            (0, fst (vhci_urb_giveback vhc urbp), snd (vhci_urb_giveback vhc urbp))
        | None \<Rightarrow>
            (case find (\<lambda>entry. urb_ptr (urbp_urb entry) = urb) (urbp_list_fetched vhc) of
               Some entry \<Rightarrow>
                 (0,
                  (list_del entry vhc)
                    \<lparr>urbp_list_cancel := urbp_list_cancel (list_del entry vhc) @ [entry]\<rparr>,
                  [WorkEvent])
             | None \<Rightarrow> (0, vhc, [])))"

subsection \<open>The root hub\<close>

text \<open>
  \<^verbatim>\<open>userspace_needs_port_update\<close>: \<^verbatim>\<open>port_update |= 1 << port\<close>, then the wake-up.
  \<open>port\<close> counts from one.
\<close>

definition userspace_needs_port_update :: "vhci \<Rightarrow> nat \<Rightarrow> vhci \<times> effect list" where
  "userspace_needs_port_update vhc port =
     (vhc\<lparr>port_update := port_update vhc OR push_bit port 1\<rparr>, [WorkEvent])"

text \<open>The assignments through \<^verbatim>\<open>ps\<close>, \<^verbatim>\<open>pc\<close> and \<^verbatim>\<open>pf\<close>: port \<open>i\<close> of the array is replaced.\<close>

definition set_port :: "vhci \<Rightarrow> nat \<Rightarrow> vhci_port \<Rightarrow> vhci" where
  "set_port vhc i p = vhc\<lparr>ports := (ports vhc)[i := p]\<rparr>"

text \<open>
  The inner \<^verbatim>\<open>switch(wValue)\<close> of \<^verbatim>\<open>ClearPortFeature\<close>. \<open>None\<close> is \<^verbatim>\<open>goto err\<close>. The
  \<^verbatim>\<open>u8\<close> parameter of \<^verbatim>\<open>userspace_needs_port_update\<close> receives \<^verbatim>\<open>wIndex\<close>
  truncated to eight bits.
\<close>

definition clear_port_feature :: "vhci \<Rightarrow> u16 \<Rightarrow> u16 \<Rightarrow> (vhci \<times> effect list) option" where
  "clear_port_feature vhc wValue wIndex =
     (let i = unat wIndex - 1; p = ports vhc ! i; port = unat wIndex mod 256 in
      if wValue = USB_PORT_FEAT_SUSPEND then
        (if port_status p AND USB_PORT_STAT_SUSPEND \<noteq> 0 then
           Some (userspace_needs_port_update
             (set_port vhc i (p\<lparr>port_flags := port_flags p OR USB_VHCI_PORT_STAT_FLAG_RESUMING\<rparr>))
             port)
         else Some (vhc, []))
      else if wValue = USB_PORT_FEAT_POWER then
        (if port_status p AND USB_PORT_STAT_POWER \<noteq> 0 then
           Some (userspace_needs_port_update
             (set_port vhc i
               \<lparr>port_status = port_status p AND USB_PORT_STAT_OVERCURRENT,
                port_change = port_change p AND USB_PORT_STAT_C_OVERCURRENT,
                port_flags = port_flags p AND NOT USB_VHCI_PORT_STAT_FLAG_RESUMING\<rparr>)
             port)
         else Some (vhc, []))
      else if wValue = USB_PORT_FEAT_ENABLE then
        (if port_status p AND USB_PORT_STAT_ENABLE \<noteq> 0 then
           Some (userspace_needs_port_update
             (set_port vhc i
               \<lparr>port_status =
                  port_status p AND NOT (USB_PORT_STAT_ENABLE OR USB_PORT_STAT_SUSPEND),
                port_change =
                  port_change p AND NOT (USB_PORT_STAT_C_ENABLE OR USB_PORT_STAT_C_SUSPEND),
                port_flags = port_flags p AND NOT USB_VHCI_PORT_STAT_FLAG_RESUMING\<rparr>)
             port)
         else Some (vhc, []))
      else if wValue = USB_PORT_FEAT_CONNECTION \<or> wValue = USB_PORT_FEAT_OVER_CURRENT
           \<or> wValue = USB_PORT_FEAT_RESET \<or> wValue = USB_PORT_FEAT_LOWSPEED
           \<or> wValue = USB_PORT_FEAT_HIGHSPEED \<or> wValue = USB_PORT_FEAT_INDICATOR then
        Some (vhc, [])
      else if wValue = USB_PORT_FEAT_C_CONNECTION \<or> wValue = USB_PORT_FEAT_C_ENABLE
           \<or> wValue = USB_PORT_FEAT_C_SUSPEND \<or> wValue = USB_PORT_FEAT_C_OVER_CURRENT
           \<or> wValue = USB_PORT_FEAT_C_RESET then
        (if port_change p AND push_bit (unat wValue - 16) 1 \<noteq> 0 then
           Some (userspace_needs_port_update
             (set_port vhc i
               (p\<lparr>port_change := port_change p AND NOT (push_bit (unat wValue - 16) 1)\<rparr>))
             port)
         else Some (vhc, []))
      else None)"

text \<open>The inner \<^verbatim>\<open>switch(wValue)\<close> of \<^verbatim>\<open>SetPortFeature\<close>.\<close>

definition set_port_feature :: "vhci \<Rightarrow> u16 \<Rightarrow> u16 \<Rightarrow> (vhci \<times> effect list) option" where
  "set_port_feature vhc wValue wIndex =
     (let i = unat wIndex - 1; p = ports vhc ! i; port = unat wIndex mod 256 in
      if wValue = USB_PORT_FEAT_SUSPEND then
        (if port_status p AND USB_PORT_STAT_ENABLE \<noteq> 0
            \<and> \<not> (port_status p AND USB_PORT_STAT_SUSPEND \<noteq> 0) then
           Some (userspace_needs_port_update
             (set_port vhc i (p\<lparr>port_status := port_status p OR USB_PORT_STAT_SUSPEND\<rparr>))
             port)
         else Some (vhc, []))
      else if wValue = USB_PORT_FEAT_POWER then
        (if \<not> (port_status p AND USB_PORT_STAT_POWER \<noteq> 0) then
           Some (userspace_needs_port_update
             (set_port vhc i (p\<lparr>port_status := port_status p OR USB_PORT_STAT_POWER\<rparr>))
             port)
         else Some (vhc, []))
      else if wValue = USB_PORT_FEAT_RESET then
        (if port_status p AND USB_PORT_STAT_CONNECTION \<noteq> 0
            \<and> \<not> (port_status p AND USB_PORT_STAT_RESET \<noteq> 0) then
           Some (userspace_needs_port_update
             (set_port vhc i
               (p\<lparr>port_status :=
                    (port_status p AND
                       (USB_PORT_STAT_POWER OR USB_PORT_STAT_CONNECTION
                        OR USB_PORT_STAT_LOW_SPEED OR USB_PORT_STAT_HIGH_SPEED
                        OR USB_PORT_STAT_OVERCURRENT))
                    OR USB_PORT_STAT_RESET,
                  port_flags := port_flags p AND NOT USB_VHCI_PORT_STAT_FLAG_RESUMING\<rparr>))
             port)
         else Some (vhc, []))
      else if wValue = USB_PORT_FEAT_CONNECTION \<or> wValue = USB_PORT_FEAT_OVER_CURRENT
           \<or> wValue = USB_PORT_FEAT_LOWSPEED \<or> wValue = USB_PORT_FEAT_HIGHSPEED
           \<or> wValue = USB_PORT_FEAT_INDICATOR then
        Some (vhc, [])
      else if wValue = USB_PORT_FEAT_C_CONNECTION \<or> wValue = USB_PORT_FEAT_C_ENABLE
           \<or> wValue = USB_PORT_FEAT_C_SUSPEND \<or> wValue = USB_PORT_FEAT_C_OVER_CURRENT
           \<or> wValue = USB_PORT_FEAT_C_RESET then
        (if \<not> (port_change p AND push_bit (unat wValue - 16) 1 \<noteq> 0) then
           Some (userspace_needs_port_update
             (set_port vhc i
               (p\<lparr>port_change := port_change p OR push_bit (unat wValue - 16) 1\<rparr>))
             port)
         else Some (vhc, []))
      else None)"

text \<open>
  The outer \<^verbatim>\<open>switch(typeReq)\<close>: \<open>None\<close> is \<^verbatim>\<open>goto err\<close> (and the \<^verbatim>\<open>default\<close> label),
  otherwise the bytes written to \<^verbatim>\<open>buf\<close>, the new state and the wake-ups. The bytes
  of the hub descriptor are not modelled: \<^verbatim>\<open>GetHubDescriptor\<close> leaves the state as
  it is and no claim reads its buffer.
\<close>

definition hub_request ::
  "vhci \<Rightarrow> u16 \<Rightarrow> u16 \<Rightarrow> u16 \<Rightarrow> u16 \<Rightarrow> (u8 list \<times> vhci \<times> effect list) option" where
  "hub_request vhc typeReq wValue wIndex wLength =
     (if typeReq = ClearHubFeature \<or> typeReq = SetHubFeature then
        (if wIndex \<noteq> 0 \<or> wLength \<noteq> 0
            \<or> (wValue \<noteq> C_HUB_LOCAL_POWER \<and> wValue \<noteq> C_HUB_OVER_CURRENT) then None
         else Some ([], vhc, []))
      else if typeReq = ClearPortFeature then
        (if wIndex = 0 \<or> unat wIndex > port_count vhc \<or> wLength \<noteq> 0 then None
         else map_option (\<lambda>r. ([], r)) (clear_port_feature vhc wValue wIndex))
      else if typeReq = GetHubDescriptor then
        (if wIndex \<noteq> 0 then None else Some ([], vhc, []))
      else if typeReq = GetHubStatus then
        (if wValue \<noteq> 0 \<or> wIndex \<noteq> 0 \<or> wLength \<noteq> 4 then None
         else Some ([0, 0, 0, 0], vhc, []))
      else if typeReq = GetPortStatus then
        (if wValue \<noteq> 0 \<or> wIndex = 0 \<or> unat wIndex > port_count vhc \<or> wLength \<noteq> 4 then None
         else
           let p = ports vhc ! (unat wIndex - 1) in
           Some ([ucast (port_status p), ucast (drop_bit 8 (port_status p)),
                  ucast (port_change p), ucast (drop_bit 8 (port_change p))], vhc, []))
      else if typeReq = SetPortFeature then
        (if wIndex = 0 \<or> unat wIndex > port_count vhc \<or> wLength \<noteq> 0 then None
         else map_option (\<lambda>r. ([], r)) (set_port_feature vhc wValue wIndex))
      else None)"

text \<open>
  The loop that sets \<^verbatim>\<open>has_changes\<close>: one of the first \<open>port_count\<close> ports of the
  array has a change bit set.
\<close>

definition has_changes :: "vhci \<Rightarrow> bool" where
  "has_changes vhc =
     list_ex (\<lambda>port. port_change port \<noteq> 0) (take (port_count vhc) (ports vhc))"

text \<open>
  \<^verbatim>\<open>vhci_hub_control\<close>. \<open>hw_accessible\<close> is the bit \<^verbatim>\<open>HCD_FLAG_HW_ACCESSIBLE\<close> of
  \<^verbatim>\<open>hcd->flags\<close>. The result is the return value, the bytes written to \<^verbatim>\<open>buf\<close>,
  the new state and the effects; \<^verbatim>\<open>usb_hcd_poll_rh_status\<close> comes last.
\<close>

definition vhci_hub_control ::
  "bool \<Rightarrow> vhci \<Rightarrow> u16 \<Rightarrow> u16 \<Rightarrow> u16 \<Rightarrow> u16 \<Rightarrow> int \<times> u8 list \<times> vhci \<times> effect list" where
  "vhci_hub_control hw_accessible vhc typeReq wValue wIndex wLength =
     (if \<not> hw_accessible then (- ETIMEDOUT, [], vhc, [])
      else
        let (retval, buf, vhc', woken) =
          (case hub_request vhc typeReq wValue wIndex wLength of
             None \<Rightarrow> (- EPIPE, [], vhc, [])
           | Some (buf, vhc', woken) \<Rightarrow> (0, buf, vhc', woken))
        in (retval, buf, vhc', woken @ (if has_changes vhc' then [PollRhStatus] else [])))"

subsection \<open>Port events reported by the worker\<close>

text \<open>
  The \<^verbatim>\<open>switch(change)\<close> of \<^verbatim>\<open>ioc_port_stat\<close> on the registers of one port; \<open>None\<close>
  is a \<^verbatim>\<open>return -EPROTO\<close> inside the switch. Every such return stands before the
  first assignment of its case.
\<close>

definition port_stat_switch :: "vhci_port \<Rightarrow> u16 \<Rightarrow> u16 \<Rightarrow> vhci_port option" where
  "port_stat_switch p status change =
     (if change = USB_PORT_STAT_C_CONNECTION then
        (let overcurrent = port_status p AND USB_PORT_STAT_OVERCURRENT in
         Some \<lparr>port_status =
                 (if status AND USB_PORT_STAT_CONNECTION \<noteq> 0 then
                    USB_PORT_STAT_POWER OR USB_PORT_STAT_CONNECTION OR
                    (if status AND USB_PORT_STAT_LOW_SPEED \<noteq> 0 then USB_PORT_STAT_LOW_SPEED
                     else if status AND USB_PORT_STAT_HIGH_SPEED \<noteq> 0 then USB_PORT_STAT_HIGH_SPEED
                     else 0) OR
                    overcurrent
                  else USB_PORT_STAT_POWER OR overcurrent),
               port_change = port_change p OR USB_PORT_STAT_C_CONNECTION,
               port_flags = port_flags p AND NOT USB_VHCI_PORT_STAT_FLAG_RESUMING\<rparr>)
      else if change = USB_PORT_STAT_C_ENABLE then
        (if \<not> (port_status p AND USB_PORT_STAT_CONNECTION \<noteq> 0)
            \<or> port_status p AND USB_PORT_STAT_RESET \<noteq> 0
            \<or> status AND USB_PORT_STAT_ENABLE \<noteq> 0 then None
         else
           Some \<lparr>port_status =
                   (port_status p AND NOT USB_PORT_STAT_ENABLE) AND NOT USB_PORT_STAT_SUSPEND,
                 port_change = port_change p OR USB_PORT_STAT_C_ENABLE,
                 port_flags = port_flags p AND NOT USB_VHCI_PORT_STAT_FLAG_RESUMING\<rparr>)
      else if change = USB_PORT_STAT_C_SUSPEND then
        (if \<not> (port_status p AND USB_PORT_STAT_CONNECTION \<noteq> 0)
            \<or> \<not> (port_status p AND USB_PORT_STAT_ENABLE \<noteq> 0)
            \<or> port_status p AND USB_PORT_STAT_RESET \<noteq> 0
            \<or> status AND USB_PORT_STAT_SUSPEND \<noteq> 0 then None
         else
           Some \<lparr>port_status = port_status p AND NOT USB_PORT_STAT_SUSPEND,
                 port_change = port_change p OR USB_PORT_STAT_C_SUSPEND,
                 port_flags = port_flags p AND NOT USB_VHCI_PORT_STAT_FLAG_RESUMING\<rparr>)
      else if change = USB_PORT_STAT_C_OVERCURRENT then
        Some (p\<lparr>port_status :=
                   (port_status p AND NOT USB_PORT_STAT_OVERCURRENT)
                   OR (status AND USB_PORT_STAT_OVERCURRENT),
                 port_change := port_change p OR USB_PORT_STAT_C_OVERCURRENT\<rparr>)
      else
        (if \<not> (port_status p AND USB_PORT_STAT_CONNECTION \<noteq> 0)
            \<or> \<not> (port_status p AND USB_PORT_STAT_RESET \<noteq> 0)
            \<or> status AND USB_PORT_STAT_RESET \<noteq> 0 then None
         else if change AND USB_PORT_STAT_C_ENABLE \<noteq> 0 then
           (if status AND USB_PORT_STAT_ENABLE \<noteq> 0 then None
            else
              Some (p\<lparr>port_status := port_status p AND NOT USB_PORT_STAT_RESET,
                       port_change :=
                         (port_change p OR USB_PORT_STAT_C_ENABLE) OR USB_PORT_STAT_C_RESET\<rparr>))
         else
           Some (p\<lparr>port_status :=
                      (port_status p OR (status AND USB_PORT_STAT_ENABLE))
                      AND NOT USB_PORT_STAT_RESET,
                    port_change := port_change p OR USB_PORT_STAT_C_RESET\<rparr>)))"

text \<open>
  \<^verbatim>\<open>ioc_port_stat\<close>, with the three values it reads from the user's structure.
\<close>

definition ioc_port_stat :: "vhci \<Rightarrow> u16 \<Rightarrow> u16 \<Rightarrow> u8 \<Rightarrow> int \<times> vhci \<times> effect list" where
  "ioc_port_stat vhc status change index =
     (if index = 0 \<or> unat index > port_count vhc then (- EINVAL, vhc, [])
      else if change \<noteq> USB_PORT_STAT_C_CONNECTION
            \<and> change \<noteq> USB_PORT_STAT_C_ENABLE
            \<and> change \<noteq> USB_PORT_STAT_C_SUSPEND
            \<and> change \<noteq> USB_PORT_STAT_C_OVERCURRENT
            \<and> change \<noteq> USB_PORT_STAT_C_RESET
            \<and> change \<noteq> (USB_PORT_STAT_C_RESET OR USB_PORT_STAT_C_ENABLE) then (- EINVAL, vhc, [])
      else if \<not> (port_status (ports vhc ! (unat index - 1)) AND USB_PORT_STAT_POWER \<noteq> 0) then
        (- EPROTO, vhc, [])
      else
        case port_stat_switch (ports vhc ! (unat index - 1)) status change of
          None \<Rightarrow> (- EPROTO, vhc, [])
        | Some p \<Rightarrow>
            (0,
             fst (userspace_needs_port_update (set_port vhc (unat index - 1) p) (unat index)),
             snd (userspace_needs_port_update (set_port vhc (unat index - 1) p) (unat index))
               @ [PollRhStatus]))"

subsection \<open>Fetching work\<close>

text \<open>
  What \<^verbatim>\<open>ioc_fetch_work\<close> writes into the user's \<^verbatim>\<open>struct usb_vhci_ioc_work\<close>: one of
  three kinds of work. For a URB the fields are those the function stores with
  \<^verbatim>\<open>__put_user\<close>; the transfer type is kept as the pipe type it is converted from,
  and the converted transfer flags are left out.
\<close>

record usb_vhci_urb =
  work_address :: u8
  work_endpoint :: u8
  work_type :: pipe_type
  work_buffer_length :: int
  work_setup_packet :: "usb_ctrlrequest option"
  work_interval :: int
  work_packet_count :: int

datatype work =
  CANCEL_URB nat
| PORT_STAT nat u16 u16 u8
| PROCESS_URB nat usb_vhci_urb

definition has_work :: "vhci \<Rightarrow> bool" where
  "has_work vhc =
     (port_update vhc \<noteq> 0 \<or> urbp_list_cancel vhc \<noteq> [] \<or> urbp_list_inbox vhc \<noteq> [])"

text \<open>
  The port loop of \<^verbatim>\<open>ioc_fetch_work\<close>, from the loop counter \<open>n\<close> on: the first port
  in the rotated order whose bit of \<^verbatim>\<open>port_update\<close> is set. \<open>port\<close> is a \<^verbatim>\<open>u8\<close>.
\<close>

function port_loop :: "vhci \<Rightarrow> nat \<Rightarrow> nat option" where
  "port_loop vhc n =
     (if n < port_count vhc then
        (let port = ((n + port_sched_offset vhc) mod port_count vhc) mod 256 in
         if port_update vhc AND push_bit (port + 1) 1 \<noteq> 0 then Some port
         else port_loop vhc (n + 1))
      else None)"
  by pat_completeness auto
termination
  by (relation "measure (\<lambda>(vhc, n). port_count vhc - n)") auto

declare port_loop.simps [simp del]

text \<open>
  The checks of \<^verbatim>\<open>ioc_fetch_work\<close> that jump to \<^verbatim>\<open>invalid_urb\<close>, for the URB at the
  head of the inbox.
\<close>

definition invalid_urb :: "urb \<Rightarrow> bool" where
  "invalid_urb urb =
     (if pipe_type urb = PIPE_CONTROL then
        (case setup_packet urb of
           None \<Rightarrow> True
         | Some cmd \<Rightarrow>
             uint (cmd_wLength cmd) > transfer_buffer_length urb
             \<or> (if bRequestType cmd AND 0x80 \<noteq> 0
                 then cmd_wLength cmd = 0 \<or> transfer_buffer urb = None
                 else cmd_wLength cmd \<noteq> 0 \<and> transfer_buffer urb = None))
      else if pipe_in urb then
        transfer_buffer_length urb = 0 \<or> transfer_buffer urb = None
      else transfer_buffer_length urb \<noteq> 0 \<and> transfer_buffer urb = None)"

text \<open>The description of a valid URB that is stored for user space.\<close>

definition process_urb :: "urb \<Rightarrow> work" where
  "process_urb urb =
     PROCESS_URB (urb_ptr urb)
       \<lparr>work_address = pipe_device urb,
        work_endpoint = pipe_endpoint urb OR (if pipe_in urb then 0x80 else 0x00),
        work_type = pipe_type urb,
        work_buffer_length =
          (if pipe_type urb = PIPE_CONTROL
           then (case setup_packet urb of Some cmd \<Rightarrow> uint (cmd_wLength cmd) | None \<Rightarrow> 0)
           else transfer_buffer_length urb),
        work_setup_packet = (if pipe_type urb = PIPE_CONTROL then setup_packet urb else None),
        work_interval = interval urb,
        work_packet_count = number_of_packets urb\<rparr>"

text \<open>
  \<^verbatim>\<open>list_move_tail\<close> into the list of fetched URBs, and into the list of URBs whose
  cancellation user space knows about.
\<close>

definition move_to_fetched :: "vhci_urb_priv \<Rightarrow> vhci \<Rightarrow> vhci" where
  "move_to_fetched urbp vhc =
     (list_del urbp vhc)\<lparr>urbp_list_fetched := urbp_list_fetched (list_del urbp vhc) @ [urbp]\<rparr>"

definition move_to_canceling :: "vhci_urb_priv \<Rightarrow> vhci \<Rightarrow> vhci" where
  "move_to_canceling urbp vhc =
     (list_del urbp vhc)\<lparr>urbp_list_canceling := urbp_list_canceling (list_del urbp vhc) @ [urbp]\<rparr>"

text \<open>
  The part of \<^verbatim>\<open>ioc_fetch_work\<close> from the label \<^verbatim>\<open>repeat\<close> on. The result is the
  return value, the work stored for user space, the new state and the effects.
\<close>

function fetch_inbox :: "vhci \<Rightarrow> int \<times> work option \<times> vhci \<times> effect list" where
  "fetch_inbox vhc =
     (case urbp_list_inbox vhc of
        [] \<Rightarrow> (- ENODATA, None, vhc, [])
      | urbp # rest \<Rightarrow>
          if invalid_urb (urbp_urb urbp) then
            (case fetch_inbox (fst (vhci_urb_giveback vhc (maybe_set_status urbp (- EPIPE)))) of
               (retval, w, vhc', effs) \<Rightarrow>
                 (retval, w, vhc',
                  snd (vhci_urb_giveback vhc (maybe_set_status urbp (- EPIPE))) @ effs))
          else (0, Some (process_urb (urbp_urb urbp)), move_to_fetched urbp vhc, []))"
  by pat_completeness simp
termination
proof (relation "measure (\<lambda>vhc. length (urbp_list_inbox vhc))")
  show "wf (measure (\<lambda>vhc. length (urbp_list_inbox vhc)))" by simp
next
  fix vhc :: vhci and urbp rest
  assume inbox: "urbp_list_inbox vhc = urbp # rest"
  assume "invalid_urb (urbp_urb urbp)"
  have same: "urbp_urb (maybe_set_status urbp (- EPIPE)) = urbp_urb urbp"
    by (simp add: maybe_set_status_def)
  have "length (urbp_list_inbox (list_del (maybe_set_status urbp (- EPIPE)) vhc))
      < length (urbp_list_inbox vhc)"
    unfolding list_del_def Let_def same using inbox by (simp add: le_imp_less_Suc)
  then show "(fst (vhci_urb_giveback vhc (maybe_set_status urbp (- EPIPE))), vhc)
      \<in> measure (\<lambda>vhc. length (urbp_list_inbox vhc))"
    unfolding vhci_urb_giveback_def Let_def by simp
qed

declare fetch_inbox.simps [simp del]

text \<open>
  \<^verbatim>\<open>ioc_fetch_work\<close> from the lock on: the list of URBs to cancel first, then the
  ports, then the inbox.
\<close>

definition fetch_work_locked :: "vhci \<Rightarrow> int \<times> work option \<times> vhci \<times> effect list" where
  "fetch_work_locked vhc =
     (case urbp_list_cancel vhc of
        urbp # rest \<Rightarrow>
          (0, Some (CANCEL_URB (urb_ptr (urbp_urb urbp))), move_to_canceling urbp vhc, [])
      | [] \<Rightarrow>
          if port_update vhc \<noteq> 0 then
            (let vhc1 =
               (if port_sched_offset vhc \<ge> port_count vhc
                then vhc\<lparr>port_sched_offset := 0\<rparr> else vhc)
             in
             case port_loop vhc1 0 of
               Some port \<Rightarrow>
                 (0,
                  Some (PORT_STAT (port + 1)
                    (port_status (ports vhc1 ! port))
                    (port_change (ports vhc1 ! port))
                    (port_flags (ports vhc1 ! port))),
                  vhc1\<lparr>port_update := port_update vhc1 AND NOT (push_bit (port + 1) 1),
                       port_sched_offset := (port + 1) mod 256\<rparr>,
                  [])
             | None \<Rightarrow> fetch_inbox vhc1)
          else fetch_inbox vhc)"

text \<open>
  \<^verbatim>\<open>ioc_fetch_work\<close>. When \<open>timeout\<close> is not zero the function sleeps first, and
  \<open>wret\<close> is what \<^verbatim>\<open>wait_event_interruptible\<close> (or its variant with a timeout)
  returns. A timeout above 1000 is cut to 1000 milliseconds, which bounds the sleep
  and nothing else.
\<close>

definition ioc_fetch_work ::
  "vhci \<Rightarrow> int \<Rightarrow> int \<Rightarrow> int \<times> work option \<times> vhci \<times> effect list" where
  "ioc_fetch_work vhc timeout wret =
     (if timeout \<noteq> 0 then
        (if wret < 0 then
           (if wret = - ERESTARTSYS then (- EINTR, None, vhc, []) else (wret, None, vhc, []))
         else if wret = 0 then (- ETIMEDOUT, None, vhc, [])
         else fetch_work_locked vhc)
      else if \<not> has_work vhc then (- ETIMEDOUT, None, vhc, [])
      else fetch_work_locked vhc)"

subsection \<open>Completions delivered by the worker\<close>










text \<open>
  What \<^verbatim>\<open>vhci_start\<close> and \<^verbatim>\<open>ioc_register\<close> establish and no function changes: the
  array holds \<open>port_count\<close> ports, and there are at most 31 of them, so that every
  port has a bit of its own in the 32-bit \<^verbatim>\<open>port_update\<close>.
\<close>

definition ports_allocated :: "vhci \<Rightarrow> bool" where
  "ports_allocated vhc = (length (ports vhc) = port_count vhc \<and> port_count vhc \<le> 31)"

text \<open>
  A URB is linked into one list at a time: the addresses of the URBs in the four
  lists are pairwise different. \<^verbatim>\<open>vhci_start\<close> establishes this with four empty
  lists, and the USB core keeps it, since it submits no URB that is in flight.
\<close>

definition urb_ptrs :: "vhci_urb_priv list \<Rightarrow> nat list" where
  "urb_ptrs xs = map (\<lambda>entry. urb_ptr (urbp_urb entry)) xs"

definition linked_once :: "vhci \<Rightarrow> bool" where
  "linked_once vhc =
     distinct (urb_ptrs (urbp_list_inbox vhc) @ urb_ptrs (urbp_list_fetched vhc)
               @ urb_ptrs (urbp_list_cancel vhc) @ urb_ptrs (urbp_list_canceling vhc))"

text \<open>
  Calls of \<^verbatim>\<open>ioc_fetch_work\<close> in a row, with nothing else happening in between: the
  return value and the work of each call. Every call comes with its timeout and
  with what its wait returns.
\<close>

fun fetch_n :: "(int \<times> int) list \<Rightarrow> vhci \<Rightarrow> (int \<times> work option) list" where
  "fetch_n [] vhc = []"
| "fetch_n ((timeout, wret) # waits) vhc =
     (case ioc_fetch_work vhc timeout wret of
        (retval, w, vhc', effs) \<Rightarrow> (retval, w) # fetch_n waits vhc')"

text \<open>
  URBs for the closed examples below: no buffer, length zero, no setup packet. As a
  bulk or interrupt OUT transfer such a URB passes the checks of
  \<^verbatim>\<open>ioc_fetch_work\<close>; as a control transfer (no setup packet) or as an IN transfer
  (length zero) it does not.
\<close>

definition sample_urb :: "nat \<Rightarrow> pipe_type \<Rightarrow> bool \<Rightarrow> urb" where
  "sample_urb ptr type dir_in =
     \<lparr>urb_ptr = ptr, pipe_type = type, pipe_in = dir_in, pipe_device = 1, pipe_endpoint = 2,
      transfer_buffer = None, transfer_buffer_length = 0, setup_packet = None,
      interval = 0, number_of_packets = 0, iso_frame_desc = [],
      actual_length = 0, error_count = 0\<rparr>"

section \<open>Properties\<close>

lemmas port_stat_defs =
  USB_PORT_STAT_CONNECTION_def USB_PORT_STAT_ENABLE_def USB_PORT_STAT_SUSPEND_def
  USB_PORT_STAT_OVERCURRENT_def USB_PORT_STAT_RESET_def USB_PORT_STAT_POWER_def
  USB_PORT_STAT_LOW_SPEED_def USB_PORT_STAT_HIGH_SPEED_def
  USB_PORT_STAT_C_CONNECTION_def USB_PORT_STAT_C_ENABLE_def USB_PORT_STAT_C_SUSPEND_def
  USB_PORT_STAT_C_OVERCURRENT_def USB_PORT_STAT_C_RESET_def

lemmas port_feat_defs =
  C_HUB_LOCAL_POWER_def C_HUB_OVER_CURRENT_def
  USB_PORT_FEAT_CONNECTION_def USB_PORT_FEAT_ENABLE_def USB_PORT_FEAT_SUSPEND_def
  USB_PORT_FEAT_OVER_CURRENT_def USB_PORT_FEAT_RESET_def USB_PORT_FEAT_POWER_def
  USB_PORT_FEAT_LOWSPEED_def USB_PORT_FEAT_HIGHSPEED_def
  USB_PORT_FEAT_C_CONNECTION_def USB_PORT_FEAT_C_ENABLE_def USB_PORT_FEAT_C_SUSPEND_def
  USB_PORT_FEAT_C_OVER_CURRENT_def USB_PORT_FEAT_C_RESET_def USB_PORT_FEAT_INDICATOR_def

lemmas type_req_defs =
  ClearHubFeature_def ClearPortFeature_def GetHubDescriptor_def GetHubStatus_def
  GetPortStatus_def SetHubFeature_def SetPortFeature_def

subsection \<open>Helper facts\<close>

lemma test_bit_iff: "(w AND push_bit n 1 \<noteq> 0) = bit w n" for w :: "'a::len word"
  by (simp add: bit_iff_and_push_bit_not_eq_0 and.commute)

lemma vhci_start_no_changes: "has_changes (vhci_start n) = False"
  by (simp add: has_changes_def vhci_start_def list_ex_iff in_set_takeD)

lemma vhci_start_port_count: "port_count (vhci_start n) = n"
  by (simp add: vhci_start_def)

subsection \<open>Port events on an unpowered port\<close>

text \<open>
  Claim C10. A port event reported by the worker (\<^verbatim>\<open>ioc_port_stat\<close>) for a valid port
  index whose power bit is clear fails with \<^verbatim>\<open>-EPROTO\<close>, and nothing is changed: the
  state returned is the state given, so every port's status, change and flags and
  the \<^verbatim>\<open>port_update\<close> mask are as before, and nobody is woken. A change mask that
  is none of the five single change bits nor reset together with enable fails with
  \<^verbatim>\<open>-EINVAL\<close>, again with the state untouched. The check of the change mask stands
  before the check of the power bit, so the first part is about the accepted
  change masks.
\<close>

theorem ioc_port_stat_rejects:
  "(index \<noteq> 0 \<and> unat index \<le> port_count vhc
      \<and> (change = USB_PORT_STAT_C_CONNECTION \<or> change = USB_PORT_STAT_C_ENABLE
          \<or> change = USB_PORT_STAT_C_SUSPEND \<or> change = USB_PORT_STAT_C_OVERCURRENT
          \<or> change = USB_PORT_STAT_C_RESET
          \<or> change = (USB_PORT_STAT_C_RESET OR USB_PORT_STAT_C_ENABLE))
      \<and> port_status (ports vhc ! (unat index - 1)) AND USB_PORT_STAT_POWER = 0
    \<longrightarrow> ioc_port_stat vhc status change index = (- EPROTO, vhc, []))
   \<and> (change \<noteq> USB_PORT_STAT_C_CONNECTION \<and> change \<noteq> USB_PORT_STAT_C_ENABLE
        \<and> change \<noteq> USB_PORT_STAT_C_SUSPEND \<and> change \<noteq> USB_PORT_STAT_C_OVERCURRENT
        \<and> change \<noteq> USB_PORT_STAT_C_RESET
        \<and> change \<noteq> (USB_PORT_STAT_C_RESET OR USB_PORT_STAT_C_ENABLE)
    \<longrightarrow> ioc_port_stat vhc status change index = (- EINVAL, vhc, []))"
  unfolding ioc_port_stat_def by auto

theorem ioc_port_stat_rejects_witness:
  "ioc_port_stat (vhci_start 2) 1 USB_PORT_STAT_C_CONNECTION 1 = (- EPROTO, vhci_start 2, [])
   \<and> ioc_port_stat (vhci_start 2) 1 3 1 = (- EINVAL, vhci_start 2, [])"
  using ioc_port_stat_rejects [where index = 1 and vhc = "vhci_start 2"
      and change = USB_PORT_STAT_C_CONNECTION and status = 1]
    ioc_port_stat_rejects [where index = 1 and vhc = "vhci_start 2" and change = 3 and status = 1]
  by (simp add: vhci_start_def port_stat_defs)

subsection \<open>Requests the root hub refuses\<close>

lemma clear_port_feature_None:
  "wValue \<notin> {USB_PORT_FEAT_CONNECTION, USB_PORT_FEAT_ENABLE, USB_PORT_FEAT_SUSPEND,
              USB_PORT_FEAT_OVER_CURRENT, USB_PORT_FEAT_RESET, USB_PORT_FEAT_POWER,
              USB_PORT_FEAT_LOWSPEED, USB_PORT_FEAT_HIGHSPEED, USB_PORT_FEAT_INDICATOR,
              USB_PORT_FEAT_C_CONNECTION, USB_PORT_FEAT_C_ENABLE, USB_PORT_FEAT_C_SUSPEND,
              USB_PORT_FEAT_C_OVER_CURRENT, USB_PORT_FEAT_C_RESET}
   \<Longrightarrow> clear_port_feature vhc wValue wIndex = None"
  unfolding clear_port_feature_def Let_def by simp

lemma set_port_feature_None:
  "wValue \<notin> {USB_PORT_FEAT_CONNECTION, USB_PORT_FEAT_SUSPEND,
              USB_PORT_FEAT_OVER_CURRENT, USB_PORT_FEAT_RESET, USB_PORT_FEAT_POWER,
              USB_PORT_FEAT_LOWSPEED, USB_PORT_FEAT_HIGHSPEED, USB_PORT_FEAT_INDICATOR,
              USB_PORT_FEAT_C_CONNECTION, USB_PORT_FEAT_C_ENABLE, USB_PORT_FEAT_C_SUSPEND,
              USB_PORT_FEAT_C_OVER_CURRENT, USB_PORT_FEAT_C_RESET}
   \<Longrightarrow> set_port_feature vhc wValue wIndex = None"
  unfolding set_port_feature_def Let_def by simp

lemma hub_request_ClearPortFeature:
  "hub_request vhc ClearPortFeature wValue wIndex wLength =
     (if wIndex = 0 \<or> unat wIndex > port_count vhc \<or> wLength \<noteq> 0 then None
      else map_option (\<lambda>r. ([], r)) (clear_port_feature vhc wValue wIndex))"
  unfolding hub_request_def by (simp add: type_req_defs)

lemma hub_request_SetPortFeature:
  "hub_request vhc SetPortFeature wValue wIndex wLength =
     (if wIndex = 0 \<or> unat wIndex > port_count vhc \<or> wLength \<noteq> 0 then None
      else map_option (\<lambda>r. ([], r)) (set_port_feature vhc wValue wIndex))"
  unfolding hub_request_def by (simp add: type_req_defs)

lemma hub_request_HubFeature:
  "typeReq = ClearHubFeature \<or> typeReq = SetHubFeature \<Longrightarrow>
   hub_request vhc typeReq wValue wIndex wLength =
     (if wIndex \<noteq> 0 \<or> wLength \<noteq> 0
         \<or> (wValue \<noteq> C_HUB_LOCAL_POWER \<and> wValue \<noteq> C_HUB_OVER_CURRENT) then None
      else Some ([], vhc, []))"
  unfolding hub_request_def by (auto simp add: type_req_defs)

lemma hub_request_GetHubStatus:
  "hub_request vhc GetHubStatus wValue wIndex wLength =
     (if wValue \<noteq> 0 \<or> wIndex \<noteq> 0 \<or> wLength \<noteq> 4 then None
      else Some ([0, 0, 0, 0], vhc, []))"
  unfolding hub_request_def by (simp add: type_req_defs)

lemma hub_request_GetPortStatus:
  "hub_request vhc GetPortStatus wValue wIndex wLength =
     (if wValue \<noteq> 0 \<or> wIndex = 0 \<or> unat wIndex > port_count vhc \<or> wLength \<noteq> 4 then None
      else
        let p = ports vhc ! (unat wIndex - 1) in
        Some ([ucast (port_status p), ucast (drop_bit 8 (port_status p)),
               ucast (port_change p), ucast (drop_bit 8 (port_change p))], vhc, []))"
  unfolding hub_request_def by (simp add: type_req_defs)

lemma hub_request_default:
  "typeReq \<notin> {ClearHubFeature, SetHubFeature, ClearPortFeature, GetHubDescriptor,
          GetHubStatus, GetPortStatus, SetPortFeature} \<Longrightarrow>
   hub_request vhc typeReq wValue wIndex wLength = None"
  unfolding hub_request_def by simp

lemma stall_port_index:
  "typeReq \<in> {ClearPortFeature, SetPortFeature, GetPortStatus}
     \<and> (wIndex = 0 \<or> unat wIndex > port_count vhc) \<Longrightarrow>
   hub_request vhc typeReq wValue wIndex wLength = None"
  by (auto simp: hub_request_ClearPortFeature hub_request_SetPortFeature
      hub_request_GetPortStatus)

lemma stall_hub_feature:
  "typeReq \<in> {ClearHubFeature, SetHubFeature}
     \<and> wValue \<notin> {C_HUB_LOCAL_POWER, C_HUB_OVER_CURRENT} \<Longrightarrow>
   hub_request vhc typeReq wValue wIndex wLength = None"
  by (simp add: hub_request_HubFeature)

lemma stall_clear_feature:
  assumes "typeReq = ClearPortFeature \<and> wValue \<notin> {USB_PORT_FEAT_CONNECTION, USB_PORT_FEAT_ENABLE, USB_PORT_FEAT_SUSPEND,
              USB_PORT_FEAT_OVER_CURRENT, USB_PORT_FEAT_RESET, USB_PORT_FEAT_POWER,
              USB_PORT_FEAT_LOWSPEED, USB_PORT_FEAT_HIGHSPEED, USB_PORT_FEAT_INDICATOR,
              USB_PORT_FEAT_C_CONNECTION, USB_PORT_FEAT_C_ENABLE, USB_PORT_FEAT_C_SUSPEND,
              USB_PORT_FEAT_C_OVER_CURRENT, USB_PORT_FEAT_C_RESET}"
  shows "hub_request vhc typeReq wValue wIndex wLength = None"
proof -
  from assms have t: "typeReq = ClearPortFeature" by (rule conjunct1)
  from assms have "wValue \<notin> {USB_PORT_FEAT_CONNECTION, USB_PORT_FEAT_ENABLE, USB_PORT_FEAT_SUSPEND,
              USB_PORT_FEAT_OVER_CURRENT, USB_PORT_FEAT_RESET, USB_PORT_FEAT_POWER,
              USB_PORT_FEAT_LOWSPEED, USB_PORT_FEAT_HIGHSPEED, USB_PORT_FEAT_INDICATOR,
              USB_PORT_FEAT_C_CONNECTION, USB_PORT_FEAT_C_ENABLE, USB_PORT_FEAT_C_SUSPEND,
              USB_PORT_FEAT_C_OVER_CURRENT, USB_PORT_FEAT_C_RESET}" by (rule conjunct2)
  then have "clear_port_feature vhc wValue wIndex = None" by (rule clear_port_feature_None)
  then show ?thesis unfolding t hub_request_ClearPortFeature by simp
qed

lemma stall_set_feature:
  assumes "typeReq = SetPortFeature \<and> wValue \<notin> {USB_PORT_FEAT_CONNECTION, USB_PORT_FEAT_SUSPEND,
              USB_PORT_FEAT_OVER_CURRENT, USB_PORT_FEAT_RESET, USB_PORT_FEAT_POWER,
              USB_PORT_FEAT_LOWSPEED, USB_PORT_FEAT_HIGHSPEED, USB_PORT_FEAT_INDICATOR,
              USB_PORT_FEAT_C_CONNECTION, USB_PORT_FEAT_C_ENABLE, USB_PORT_FEAT_C_SUSPEND,
              USB_PORT_FEAT_C_OVER_CURRENT, USB_PORT_FEAT_C_RESET}"
  shows "hub_request vhc typeReq wValue wIndex wLength = None"
proof -
  from assms have t: "typeReq = SetPortFeature" by (rule conjunct1)
  from assms have "wValue \<notin> {USB_PORT_FEAT_CONNECTION, USB_PORT_FEAT_SUSPEND,
              USB_PORT_FEAT_OVER_CURRENT, USB_PORT_FEAT_RESET, USB_PORT_FEAT_POWER,
              USB_PORT_FEAT_LOWSPEED, USB_PORT_FEAT_HIGHSPEED, USB_PORT_FEAT_INDICATOR,
              USB_PORT_FEAT_C_CONNECTION, USB_PORT_FEAT_C_ENABLE, USB_PORT_FEAT_C_SUSPEND,
              USB_PORT_FEAT_C_OVER_CURRENT, USB_PORT_FEAT_C_RESET}" by (rule conjunct2)
  then have "set_port_feature vhc wValue wIndex = None" by (rule set_port_feature_None)
  then show ?thesis unfolding t hub_request_SetPortFeature by simp
qed

lemma stall_length:
  "typeReq \<in> {ClearHubFeature, SetHubFeature, ClearPortFeature, SetPortFeature}
     \<and> wLength \<noteq> 0 \<Longrightarrow>
   hub_request vhc typeReq wValue wIndex wLength = None"
  by (auto simp: hub_request_ClearPortFeature hub_request_SetPortFeature
      hub_request_HubFeature)

lemma stall_status_length:
  "typeReq \<in> {GetHubStatus, GetPortStatus} \<and> wLength \<noteq> 4 \<Longrightarrow>
   hub_request vhc typeReq wValue wIndex wLength = None"
  by (auto simp: hub_request_GetHubStatus hub_request_GetPortStatus)

lemma hub_request_stall:
  assumes "(typeReq \<in> {ClearPortFeature, SetPortFeature, GetPortStatus}
        \<and> (wIndex = 0 \<or> unat wIndex > port_count vhc))
     \<or> (typeReq \<in> {ClearHubFeature, SetHubFeature}
        \<and> wValue \<notin> {C_HUB_LOCAL_POWER, C_HUB_OVER_CURRENT})
     \<or> (typeReq = ClearPortFeature \<and> wValue \<notin> {USB_PORT_FEAT_CONNECTION, USB_PORT_FEAT_ENABLE, USB_PORT_FEAT_SUSPEND,
              USB_PORT_FEAT_OVER_CURRENT, USB_PORT_FEAT_RESET, USB_PORT_FEAT_POWER,
              USB_PORT_FEAT_LOWSPEED, USB_PORT_FEAT_HIGHSPEED, USB_PORT_FEAT_INDICATOR,
              USB_PORT_FEAT_C_CONNECTION, USB_PORT_FEAT_C_ENABLE, USB_PORT_FEAT_C_SUSPEND,
              USB_PORT_FEAT_C_OVER_CURRENT, USB_PORT_FEAT_C_RESET})
     \<or> (typeReq = SetPortFeature \<and> wValue \<notin> {USB_PORT_FEAT_CONNECTION, USB_PORT_FEAT_SUSPEND,
              USB_PORT_FEAT_OVER_CURRENT, USB_PORT_FEAT_RESET, USB_PORT_FEAT_POWER,
              USB_PORT_FEAT_LOWSPEED, USB_PORT_FEAT_HIGHSPEED, USB_PORT_FEAT_INDICATOR,
              USB_PORT_FEAT_C_CONNECTION, USB_PORT_FEAT_C_ENABLE, USB_PORT_FEAT_C_SUSPEND,
              USB_PORT_FEAT_C_OVER_CURRENT, USB_PORT_FEAT_C_RESET})
     \<or> (typeReq \<in> {ClearHubFeature, SetHubFeature, ClearPortFeature, SetPortFeature}
        \<and> wLength \<noteq> 0)
     \<or> (typeReq \<in> {GetHubStatus, GetPortStatus} \<and> wLength \<noteq> 4)
     \<or> typeReq \<notin> {ClearHubFeature, SetHubFeature, ClearPortFeature, GetHubDescriptor,
          GetHubStatus, GetPortStatus, SetPortFeature}"
  shows "hub_request vhc typeReq wValue wIndex wLength = None"
  using assms
  apply (elim disjE)
  apply (erule stall_port_index)
  apply (erule stall_hub_feature)
  apply (erule stall_clear_feature)
  apply (erule stall_set_feature)
  apply (erule stall_length)
  apply (erule stall_status_length)
  apply (erule hub_request_default)
  done

text \<open>
  Claim C8, as amended. While the controller is accessible
  (\<^verbatim>\<open>HCD_FLAG_HW_ACCESSIBLE\<close> is set), a root hub request outside the valid domain
  returns \<^verbatim>\<open>-EPIPE\<close> and changes nothing: a port request with port index zero or
  above the port count, a feature selector that its request does not allow, a
  length other than zero for a feature request or other than four for a status
  read, or an unknown request.
\<close>

theorem hub_control_stall:
  assumes "hw_accessible"
    and "(typeReq \<in> {ClearPortFeature, SetPortFeature, GetPortStatus}
        \<and> (wIndex = 0 \<or> unat wIndex > port_count vhc))
     \<or> (typeReq \<in> {ClearHubFeature, SetHubFeature}
        \<and> wValue \<notin> {C_HUB_LOCAL_POWER, C_HUB_OVER_CURRENT})
     \<or> (typeReq = ClearPortFeature \<and> wValue \<notin> {USB_PORT_FEAT_CONNECTION, USB_PORT_FEAT_ENABLE, USB_PORT_FEAT_SUSPEND,
              USB_PORT_FEAT_OVER_CURRENT, USB_PORT_FEAT_RESET, USB_PORT_FEAT_POWER,
              USB_PORT_FEAT_LOWSPEED, USB_PORT_FEAT_HIGHSPEED, USB_PORT_FEAT_INDICATOR,
              USB_PORT_FEAT_C_CONNECTION, USB_PORT_FEAT_C_ENABLE, USB_PORT_FEAT_C_SUSPEND,
              USB_PORT_FEAT_C_OVER_CURRENT, USB_PORT_FEAT_C_RESET})
     \<or> (typeReq = SetPortFeature \<and> wValue \<notin> {USB_PORT_FEAT_CONNECTION, USB_PORT_FEAT_SUSPEND,
              USB_PORT_FEAT_OVER_CURRENT, USB_PORT_FEAT_RESET, USB_PORT_FEAT_POWER,
              USB_PORT_FEAT_LOWSPEED, USB_PORT_FEAT_HIGHSPEED, USB_PORT_FEAT_INDICATOR,
              USB_PORT_FEAT_C_CONNECTION, USB_PORT_FEAT_C_ENABLE, USB_PORT_FEAT_C_SUSPEND,
              USB_PORT_FEAT_C_OVER_CURRENT, USB_PORT_FEAT_C_RESET})
     \<or> (typeReq \<in> {ClearHubFeature, SetHubFeature, ClearPortFeature, SetPortFeature}
        \<and> wLength \<noteq> 0)
     \<or> (typeReq \<in> {GetHubStatus, GetPortStatus} \<and> wLength \<noteq> 4)
     \<or> typeReq \<notin> {ClearHubFeature, SetHubFeature, ClearPortFeature, GetHubDescriptor,
          GetHubStatus, GetPortStatus, SetPortFeature}"
  shows "vhci_hub_control hw_accessible vhc typeReq wValue wIndex wLength =
     (- EPIPE, [], vhc, if has_changes vhc then [PollRhStatus] else [])"
proof -
  have "hub_request vhc typeReq wValue wIndex wLength = None"
    using assms(2) by (rule hub_request_stall)
  with assms(1) show ?thesis
    unfolding vhci_hub_control_def by simp
qed

theorem hub_control_stall_witness:
  "vhci_hub_control True (vhci_start 4) SetPortFeature USB_PORT_FEAT_RESET 5 0 =
     (- EPIPE, [], vhci_start 4, [])
   \<and> vhci_hub_control True (vhci_start 4) SetPortFeature USB_PORT_FEAT_ENABLE 3 0 =
     (- EPIPE, [], vhci_start 4, [])
   \<and> vhci_hub_control True (vhci_start 4) GetPortStatus 0 3 2 =
     (- EPIPE, [], vhci_start 4, [])"
  using hub_control_stall [where hw_accessible = True and vhc = "vhci_start 4"
      and typeReq = SetPortFeature and wValue = USB_PORT_FEAT_RESET and wIndex = 5 and wLength = 0]
    hub_control_stall [where hw_accessible = True and vhc = "vhci_start 4"
      and typeReq = SetPortFeature and wValue = USB_PORT_FEAT_ENABLE and wIndex = 3 and wLength = 0]
    hub_control_stall [where hw_accessible = True and vhc = "vhci_start 4"
      and typeReq = GetPortStatus and wValue = 0 and wIndex = 3 and wLength = 2]
  by (simp add: vhci_start_no_changes vhci_start_port_count type_req_defs port_feat_defs)

text \<open>
  Claim C8 as stated has no condition on the controller, and fails when it is not
  accessible: \<^verbatim>\<open>vhci_hub_control\<close> tests \<^verbatim>\<open>HCD_FLAG_HW_ACCESSIBLE\<close> before it looks
  at the request, and returns \<^verbatim>\<open>-ETIMEDOUT\<close>. Here for port 5 of a hub with four
  ports.
\<close>

theorem hub_control_stall_counterexample:
  "fst (vhci_hub_control False (vhci_start 4) SetPortFeature USB_PORT_FEAT_RESET 5 0) = - ETIMEDOUT
   \<and> fst (vhci_hub_control False (vhci_start 4) SetPortFeature USB_PORT_FEAT_RESET 5 0) \<noteq> - EPIPE"
  by (simp add: vhci_hub_control_def)

subsection \<open>Change bits under root hub requests\<close>

lemma nth_list_update_full:
  "(xs[i := x]) ! j = (if i = j \<and> i < length xs then x else xs ! j)"
  by (cases "i < length xs") (auto simp: nth_list_update list_update_beyond)

lemma set_port_feature_RESET:
  "set_port_feature vhc USB_PORT_FEAT_RESET wIndex =
     (let i = unat wIndex - 1; p = ports vhc ! i; port = unat wIndex mod 256 in
        (if port_status p AND USB_PORT_STAT_CONNECTION \<noteq> 0
            \<and> \<not> (port_status p AND USB_PORT_STAT_RESET \<noteq> 0) then
           Some (userspace_needs_port_update
             (set_port vhc i
               (p\<lparr>port_status :=
                    (port_status p AND
                       (USB_PORT_STAT_POWER OR USB_PORT_STAT_CONNECTION
                        OR USB_PORT_STAT_LOW_SPEED OR USB_PORT_STAT_HIGH_SPEED
                        OR USB_PORT_STAT_OVERCURRENT))
                    OR USB_PORT_STAT_RESET,
                  port_flags := port_flags p AND NOT USB_VHCI_PORT_STAT_FLAG_RESUMING\<rparr>))
             port)
         else Some (vhc, [])))"
  unfolding set_port_feature_def by (simp add: port_feat_defs)

lemma set_port_feature_change:
  assumes "set_port_feature vhc wValue wIndex = Some (vhc', effs)"
    and "bit (port_change (ports vhc ! k)) b"
  shows "bit (port_change (ports vhc' ! k)) b"
  using assms
  unfolding set_port_feature_def Let_def userspace_needs_port_update_def set_port_def
  by (auto simp: nth_list_update_full bit_simps split: if_splits)


lemma clear_port_feature_change:
  assumes "clear_port_feature vhc wValue wIndex = Some (vhc', effs)"
    and "bit (port_change (ports vhc ! k)) b"
    and "\<not> (unat wIndex - 1 = k \<and>
          ((wValue \<in> {USB_PORT_FEAT_C_CONNECTION, USB_PORT_FEAT_C_ENABLE, USB_PORT_FEAT_C_SUSPEND,
                USB_PORT_FEAT_C_OVER_CURRENT, USB_PORT_FEAT_C_RESET} \<and> b = unat wValue - 16)
           \<or> (wValue = USB_PORT_FEAT_POWER
               \<and> port_status (ports vhc ! k) AND USB_PORT_STAT_POWER \<noteq> 0
               \<and> \<not> bit USB_PORT_STAT_C_OVERCURRENT b)
           \<or> (wValue = USB_PORT_FEAT_ENABLE
               \<and> port_status (ports vhc ! k) AND USB_PORT_STAT_ENABLE \<noteq> 0
               \<and> bit (USB_PORT_STAT_C_ENABLE OR USB_PORT_STAT_C_SUSPEND) b)))"
  shows "bit (port_change (ports vhc' ! k)) b"
proof -
  have "b < 16" using assms(2) bit_imp_le_length [of "port_change (ports vhc ! k)" b] by simp
  with assms show ?thesis
    unfolding clear_port_feature_def Let_def userspace_needs_port_update_def set_port_def
    by (auto simp: nth_list_update_full bit_simps split: if_splits)
qed

lemma hub_request_other:
  assumes "typeReq \<noteq> ClearPortFeature" and "typeReq \<noteq> SetPortFeature"
    and "hub_request vhc typeReq wValue wIndex wLength = Some (buf, vhc', effs)"
  shows "vhc' = vhc \<and> effs = []"
proof -
  have "hub_request vhc typeReq wValue wIndex wLength = None
      \<or> (\<exists>buf. hub_request vhc typeReq wValue wIndex wLength = Some (buf, vhc, []))"
    unfolding hub_request_def using assms(1,2) by (simp add: Let_def)
  with assms(3) show ?thesis by auto
qed


lemma hub_request_change:
  assumes req: "hub_request vhc typeReq wValue wIndex wLength = Some (buf, vhc', effs)"
    and before: "bit (port_change (ports vhc ! k)) b"
    and other: "\<not> (typeReq = ClearPortFeature \<and> wLength = 0
          \<and> wIndex \<noteq> 0 \<and> unat wIndex \<le> port_count vhc \<and> unat wIndex - 1 = k \<and>
          ((wValue \<in> {USB_PORT_FEAT_C_CONNECTION, USB_PORT_FEAT_C_ENABLE, USB_PORT_FEAT_C_SUSPEND,
                USB_PORT_FEAT_C_OVER_CURRENT, USB_PORT_FEAT_C_RESET} \<and> b = unat wValue - 16)
           \<or> (wValue = USB_PORT_FEAT_POWER
               \<and> port_status (ports vhc ! k) AND USB_PORT_STAT_POWER \<noteq> 0
               \<and> \<not> bit USB_PORT_STAT_C_OVERCURRENT b)
           \<or> (wValue = USB_PORT_FEAT_ENABLE
               \<and> port_status (ports vhc ! k) AND USB_PORT_STAT_ENABLE \<noteq> 0
               \<and> bit (USB_PORT_STAT_C_ENABLE OR USB_PORT_STAT_C_SUSPEND) b)))"
  shows "bit (port_change (ports vhc' ! k)) b"
proof -
  consider (clear) "typeReq = ClearPortFeature" | (set) "typeReq = SetPortFeature"
    | (other) "typeReq \<noteq> ClearPortFeature" "typeReq \<noteq> SetPortFeature"
    by blast
  then show ?thesis
  proof cases
    case clear
    from req have valid: "wIndex \<noteq> 0 \<and> unat wIndex \<le> port_count vhc \<and> wLength = 0"
      unfolding clear hub_request_ClearPortFeature by (simp split: if_splits)
    from req have c: "clear_port_feature vhc wValue wIndex = Some (vhc', effs)"
      unfolding clear hub_request_ClearPortFeature by (auto split: if_splits)
    from other clear valid have "\<not> (unat wIndex - 1 = k \<and> ((wValue \<in> {USB_PORT_FEAT_C_CONNECTION, USB_PORT_FEAT_C_ENABLE, USB_PORT_FEAT_C_SUSPEND,
                USB_PORT_FEAT_C_OVER_CURRENT, USB_PORT_FEAT_C_RESET} \<and> b = unat wValue - 16)
           \<or> (wValue = USB_PORT_FEAT_POWER
               \<and> port_status (ports vhc ! k) AND USB_PORT_STAT_POWER \<noteq> 0
               \<and> \<not> bit USB_PORT_STAT_C_OVERCURRENT b)
           \<or> (wValue = USB_PORT_FEAT_ENABLE
               \<and> port_status (ports vhc ! k) AND USB_PORT_STAT_ENABLE \<noteq> 0
               \<and> bit (USB_PORT_STAT_C_ENABLE OR USB_PORT_STAT_C_SUSPEND) b)))"
      by blast
    with c before show ?thesis by (rule clear_port_feature_change)
  next
    case set
    from req have "set_port_feature vhc wValue wIndex = Some (vhc', effs)"
      unfolding set hub_request_SetPortFeature by (auto split: if_splits)
    then show ?thesis using before by (rule set_port_feature_change)
  next
    case other
    then have "vhc' = vhc" using req hub_request_other by blast
    with before show ?thesis by simp
  qed
qed

lemma and_not_disjoint:
  fixes x m :: "'a::len word"
  assumes "x AND m = 0"
  shows "x AND NOT m = x"
proof (rule bit_eqI)
  fix n
  have "\<not> (bit x n \<and> bit m n)"
    using assms by (metis bit_and_iff bit_0_eq bot_apply bot_bool_def)
  then show "bit (x AND NOT m) n = bit x n"
    by (auto simp: bit_simps dest: bit_imp_le_length)
qed

lemma clear_port_feature_exact:
  assumes "unat wIndex - 1 < length (ports vhc)"
  shows "(wValue \<in> {USB_PORT_FEAT_C_CONNECTION, USB_PORT_FEAT_C_ENABLE, USB_PORT_FEAT_C_SUSPEND,
                USB_PORT_FEAT_C_OVER_CURRENT, USB_PORT_FEAT_C_RESET} \<longrightarrow>
          (\<exists>vhc' effs. clear_port_feature vhc wValue wIndex = Some (vhc', effs)
             \<and> port_change (ports vhc' ! (unat wIndex - 1)) =
                 port_change (ports vhc ! (unat wIndex - 1))
                   AND NOT (push_bit (unat wValue - 16) 1)))
       \<and> (wValue = USB_PORT_FEAT_POWER
            \<and> port_status (ports vhc ! (unat wIndex - 1)) AND USB_PORT_STAT_POWER \<noteq> 0 \<longrightarrow>
          (\<exists>vhc' effs. clear_port_feature vhc wValue wIndex = Some (vhc', effs)
             \<and> port_change (ports vhc' ! (unat wIndex - 1)) =
                 port_change (ports vhc ! (unat wIndex - 1)) AND USB_PORT_STAT_C_OVERCURRENT))
       \<and> (wValue = USB_PORT_FEAT_ENABLE
            \<and> port_status (ports vhc ! (unat wIndex - 1)) AND USB_PORT_STAT_ENABLE \<noteq> 0 \<longrightarrow>
          (\<exists>vhc' effs. clear_port_feature vhc wValue wIndex = Some (vhc', effs)
             \<and> port_change (ports vhc' ! (unat wIndex - 1)) =
                 port_change (ports vhc ! (unat wIndex - 1))
                   AND NOT (USB_PORT_STAT_C_ENABLE OR USB_PORT_STAT_C_SUSPEND)))"
proof (intro conjI impI)
  assume ack: "wValue \<in> {USB_PORT_FEAT_C_CONNECTION, USB_PORT_FEAT_C_ENABLE, USB_PORT_FEAT_C_SUSPEND,
                USB_PORT_FEAT_C_OVER_CURRENT, USB_PORT_FEAT_C_RESET}"
  let ?p = "ports vhc ! (unat wIndex - 1)"
  let ?m = "push_bit (unat wValue - 16) 1 :: u16"
  from ack have sel: "wValue \<noteq> USB_PORT_FEAT_SUSPEND" "wValue \<noteq> USB_PORT_FEAT_POWER"
    "wValue \<noteq> USB_PORT_FEAT_ENABLE"
    "\<not> (wValue = USB_PORT_FEAT_CONNECTION \<or> wValue = USB_PORT_FEAT_OVER_CURRENT
           \<or> wValue = USB_PORT_FEAT_RESET \<or> wValue = USB_PORT_FEAT_LOWSPEED
           \<or> wValue = USB_PORT_FEAT_HIGHSPEED \<or> wValue = USB_PORT_FEAT_INDICATOR)"
    "wValue = USB_PORT_FEAT_C_CONNECTION \<or> wValue = USB_PORT_FEAT_C_ENABLE
           \<or> wValue = USB_PORT_FEAT_C_SUSPEND \<or> wValue = USB_PORT_FEAT_C_OVER_CURRENT
           \<or> wValue = USB_PORT_FEAT_C_RESET"
    by (auto simp: port_feat_defs)
  show "\<exists>vhc' effs. clear_port_feature vhc wValue wIndex = Some (vhc', effs)
             \<and> port_change (ports vhc' ! (unat wIndex - 1)) =
                 port_change ?p AND NOT ?m"
  proof (cases "port_change ?p AND ?m = 0")
    case True
    then have "port_change ?p AND NOT ?m = port_change ?p" by (rule and_not_disjoint)
    moreover have "clear_port_feature vhc wValue wIndex = Some (vhc, [])"
      unfolding clear_port_feature_def Let_def using sel True by simp
    ultimately show ?thesis by simp
  next
    case False
    have "clear_port_feature vhc wValue wIndex =
        Some (userspace_needs_port_update
             (set_port vhc (unat wIndex - 1)
               (?p\<lparr>port_change := port_change ?p AND NOT ?m\<rparr>))
             (unat wIndex mod 256))"
      unfolding clear_port_feature_def Let_def using sel False by simp
    then show ?thesis
      using assms by (simp add: userspace_needs_port_update_def set_port_def)
  qed
next
  assume "wValue = USB_PORT_FEAT_POWER
            \<and> port_status (ports vhc ! (unat wIndex - 1)) AND USB_PORT_STAT_POWER \<noteq> 0"
  then show "\<exists>vhc' effs. clear_port_feature vhc wValue wIndex = Some (vhc', effs)
             \<and> port_change (ports vhc' ! (unat wIndex - 1)) =
                 port_change (ports vhc ! (unat wIndex - 1)) AND USB_PORT_STAT_C_OVERCURRENT"
    unfolding clear_port_feature_def Let_def using assms
    by (simp add: userspace_needs_port_update_def set_port_def port_feat_defs)
next
  assume "wValue = USB_PORT_FEAT_ENABLE
            \<and> port_status (ports vhc ! (unat wIndex - 1)) AND USB_PORT_STAT_ENABLE \<noteq> 0"
  then show "\<exists>vhc' effs. clear_port_feature vhc wValue wIndex = Some (vhc', effs)
             \<and> port_change (ports vhc' ! (unat wIndex - 1)) =
                 port_change (ports vhc ! (unat wIndex - 1))
                   AND NOT (USB_PORT_STAT_C_ENABLE OR USB_PORT_STAT_C_SUSPEND)"
    unfolding clear_port_feature_def Let_def using assms
    by (simp add: userspace_needs_port_update_def set_port_def port_feat_defs)
qed

lemma hub_control_clear_port:
  assumes "wIndex \<noteq> 0" and "unat wIndex \<le> port_count vhc"
    and "clear_port_feature vhc wValue wIndex = Some (vhc', effs)"
  shows "fst (snd (snd (vhci_hub_control True vhc ClearPortFeature wValue wIndex 0))) = vhc'"
  using assms unfolding vhci_hub_control_def hub_request_ClearPortFeature
  by (simp add: Let_def)

text \<open>
  Claim C5, as amended. \<open>vhc'\<close> is the state after a root hub request, \<open>b\<close> the
  position of a bit in \<^verbatim>\<open>port_change\<close> and \<open>k\<close> the index of a port in the array. A
  change bit of a port that is set stays set across every root hub request, with
  three exceptions, all of them \<^verbatim>\<open>ClearPortFeature\<close> requests that are valid for that
  very port: the acknowledgment of the bit itself (\<^verbatim>\<open>C_CONNECTION\<close> to \<^verbatim>\<open>C_RESET\<close>),
  switching off the power of a powered port, and disabling an enabled port. These
  three do clear: after the acknowledgment the change bits of the port are the old
  ones without bit \<^verbatim>\<open>wValue - 16\<close>, after the power is switched off they are the old
  ones with every bit but over-current cleared, and after the port is disabled they
  are the old ones without the enable and suspend change bits.
\<close>

theorem change_bit_kept:
  assumes "vhc' = fst (snd (snd (vhci_hub_control hw_accessible vhc typeReq wValue wIndex wLength)))"
  shows
    "(bit (port_change (ports vhc ! k)) b
      \<and> \<not> (hw_accessible \<and> typeReq = ClearPortFeature \<and> wLength = 0
          \<and> wIndex \<noteq> 0 \<and> unat wIndex \<le> port_count vhc \<and> unat wIndex - 1 = k \<and>
          ((wValue \<in> {USB_PORT_FEAT_C_CONNECTION, USB_PORT_FEAT_C_ENABLE, USB_PORT_FEAT_C_SUSPEND,
                USB_PORT_FEAT_C_OVER_CURRENT, USB_PORT_FEAT_C_RESET} \<and> b = unat wValue - 16)
           \<or> (wValue = USB_PORT_FEAT_POWER
               \<and> port_status (ports vhc ! k) AND USB_PORT_STAT_POWER \<noteq> 0
               \<and> \<not> bit USB_PORT_STAT_C_OVERCURRENT b)
           \<or> (wValue = USB_PORT_FEAT_ENABLE
               \<and> port_status (ports vhc ! k) AND USB_PORT_STAT_ENABLE \<noteq> 0
               \<and> bit (USB_PORT_STAT_C_ENABLE OR USB_PORT_STAT_C_SUSPEND) b)))
      \<longrightarrow> bit (port_change (ports vhc' ! k)) b)
     \<and> (ports_allocated vhc \<and> hw_accessible \<and> typeReq = ClearPortFeature \<and> wLength = 0
        \<and> wIndex \<noteq> 0 \<and> unat wIndex \<le> port_count vhc \<and> unat wIndex - 1 = k \<longrightarrow>
          (wValue \<in> {USB_PORT_FEAT_C_CONNECTION, USB_PORT_FEAT_C_ENABLE, USB_PORT_FEAT_C_SUSPEND,
                USB_PORT_FEAT_C_OVER_CURRENT, USB_PORT_FEAT_C_RESET} \<longrightarrow>
             port_change (ports vhc' ! k) =
               port_change (ports vhc ! k) AND NOT (push_bit (unat wValue - 16) 1))
        \<and> (wValue = USB_PORT_FEAT_POWER
             \<and> port_status (ports vhc ! k) AND USB_PORT_STAT_POWER \<noteq> 0 \<longrightarrow>
             port_change (ports vhc' ! k) =
               port_change (ports vhc ! k) AND USB_PORT_STAT_C_OVERCURRENT)
        \<and> (wValue = USB_PORT_FEAT_ENABLE
             \<and> port_status (ports vhc ! k) AND USB_PORT_STAT_ENABLE \<noteq> 0 \<longrightarrow>
             port_change (ports vhc' ! k) =
               port_change (ports vhc ! k)
                 AND NOT (USB_PORT_STAT_C_ENABLE OR USB_PORT_STAT_C_SUSPEND)))"
proof (intro conjI impI)
  assume a: "bit (port_change (ports vhc ! k)) b
      \<and> \<not> (hw_accessible \<and> typeReq = ClearPortFeature \<and> wLength = 0
          \<and> wIndex \<noteq> 0 \<and> unat wIndex \<le> port_count vhc \<and> unat wIndex - 1 = k \<and>
          ((wValue \<in> {USB_PORT_FEAT_C_CONNECTION, USB_PORT_FEAT_C_ENABLE, USB_PORT_FEAT_C_SUSPEND,
                USB_PORT_FEAT_C_OVER_CURRENT, USB_PORT_FEAT_C_RESET} \<and> b = unat wValue - 16)
           \<or> (wValue = USB_PORT_FEAT_POWER
               \<and> port_status (ports vhc ! k) AND USB_PORT_STAT_POWER \<noteq> 0
               \<and> \<not> bit USB_PORT_STAT_C_OVERCURRENT b)
           \<or> (wValue = USB_PORT_FEAT_ENABLE
               \<and> port_status (ports vhc ! k) AND USB_PORT_STAT_ENABLE \<noteq> 0
               \<and> bit (USB_PORT_STAT_C_ENABLE OR USB_PORT_STAT_C_SUSPEND) b)))"
  then have before: "bit (port_change (ports vhc ! k)) b" by (rule conjunct1)
  show "bit (port_change (ports vhc' ! k)) b"
  proof (cases "hw_accessible")
    case False
    with before show ?thesis unfolding assms by (simp add: vhci_hub_control_def)
  next
    case True
    show ?thesis
    proof (cases "hub_request vhc typeReq wValue wIndex wLength")
      case None
      with True before show ?thesis unfolding assms by (simp add: vhci_hub_control_def)
    next
      case (Some r)
      obtain buf vhc1 effs where r: "r = (buf, vhc1, effs)" by (cases r) auto
      from a True have "\<not> (typeReq = ClearPortFeature \<and> wLength = 0
          \<and> wIndex \<noteq> 0 \<and> unat wIndex \<le> port_count vhc \<and> unat wIndex - 1 = k \<and>
          ((wValue \<in> {USB_PORT_FEAT_C_CONNECTION, USB_PORT_FEAT_C_ENABLE, USB_PORT_FEAT_C_SUSPEND,
                USB_PORT_FEAT_C_OVER_CURRENT, USB_PORT_FEAT_C_RESET} \<and> b = unat wValue - 16)
           \<or> (wValue = USB_PORT_FEAT_POWER
               \<and> port_status (ports vhc ! k) AND USB_PORT_STAT_POWER \<noteq> 0
               \<and> \<not> bit USB_PORT_STAT_C_OVERCURRENT b)
           \<or> (wValue = USB_PORT_FEAT_ENABLE
               \<and> port_status (ports vhc ! k) AND USB_PORT_STAT_ENABLE \<noteq> 0
               \<and> bit (USB_PORT_STAT_C_ENABLE OR USB_PORT_STAT_C_SUSPEND) b)))" by blast
      with Some [unfolded r] before have "bit (port_change (ports vhc1 ! k)) b"
        by (rule hub_request_change)
      with True Some r show ?thesis unfolding assms by (simp add: vhci_hub_control_def)
    qed
  qed
next
  assume v: "ports_allocated vhc \<and> hw_accessible \<and> typeReq = ClearPortFeature \<and> wLength = 0
        \<and> wIndex \<noteq> 0 \<and> unat wIndex \<le> port_count vhc \<and> unat wIndex - 1 = k"
  then have "0 < unat wIndex" by (simp add: unat_gt_0)
  with v have len: "unat wIndex - 1 < length (ports vhc)"
    by (auto simp: ports_allocated_def)
  note exact = clear_port_feature_exact [OF len, of wValue]
  from v have res: "clear_port_feature vhc wValue wIndex = Some (vhc1, effs) \<Longrightarrow> vhc' = vhc1"
    for vhc1 effs
    unfolding assms using hub_control_clear_port [of wIndex vhc wValue vhc1 effs] by simp
  {
    assume "wValue \<in> {USB_PORT_FEAT_C_CONNECTION, USB_PORT_FEAT_C_ENABLE, USB_PORT_FEAT_C_SUSPEND,
                USB_PORT_FEAT_C_OVER_CURRENT, USB_PORT_FEAT_C_RESET}"
    with exact res v show "port_change (ports vhc' ! k) =
               port_change (ports vhc ! k) AND NOT (push_bit (unat wValue - 16) 1)"
      by blast
  next
    assume "wValue = USB_PORT_FEAT_POWER
             \<and> port_status (ports vhc ! k) AND USB_PORT_STAT_POWER \<noteq> 0"
    with exact res v show "port_change (ports vhc' ! k) =
               port_change (ports vhc ! k) AND USB_PORT_STAT_C_OVERCURRENT"
      by blast
  next
    assume "wValue = USB_PORT_FEAT_ENABLE
             \<and> port_status (ports vhc ! k) AND USB_PORT_STAT_ENABLE \<noteq> 0"
    with exact res v show "port_change (ports vhc' ! k) =
               port_change (ports vhc ! k)
                 AND NOT (USB_PORT_STAT_C_ENABLE OR USB_PORT_STAT_C_SUSPEND)"
      by blast
  }
qed

theorem change_bit_kept_witness:
  "bit (port_change (ports (fst (snd (snd
      (vhci_hub_control True
         ((vhci_start 1)\<lparr>ports := [\<lparr>port_status = 0x0103, port_change = 0x0001, port_flags = 0\<rparr>]\<rparr>)
         SetPortFeature USB_PORT_FEAT_SUSPEND 1 0)))) ! 0)) 0
   \<and> port_change (ports (fst (snd (snd
      (vhci_hub_control True
         ((vhci_start 1)\<lparr>ports := [\<lparr>port_status = 0x0103, port_change = 0x0003, port_flags = 0\<rparr>]\<rparr>)
         ClearPortFeature USB_PORT_FEAT_C_ENABLE 1 0)))) ! 0) = 0x0001
   \<and> port_change (ports (fst (snd (snd
      (vhci_hub_control True
         ((vhci_start 1)\<lparr>ports := [\<lparr>port_status = 0x0103, port_change = 0x001F, port_flags = 0\<rparr>]\<rparr>)
         ClearPortFeature USB_PORT_FEAT_POWER 1 0)))) ! 0) = 0x0008
   \<and> port_change (ports (fst (snd (snd
      (vhci_hub_control True
         ((vhci_start 1)\<lparr>ports := [\<lparr>port_status = 0x0103, port_change = 0x001F, port_flags = 0\<rparr>]\<rparr>)
         ClearPortFeature USB_PORT_FEAT_ENABLE 1 0)))) ! 0) = 0x0019"
proof -
  let ?a = "(vhci_start 1)\<lparr>ports := [\<lparr>port_status = 0x0103, port_change = 0x0001, port_flags = 0\<rparr>]\<rparr>"
  let ?b = "(vhci_start 1)\<lparr>ports := [\<lparr>port_status = 0x0103, port_change = 0x0003, port_flags = 0\<rparr>]\<rparr>"
  let ?c = "(vhci_start 1)\<lparr>ports := [\<lparr>port_status = 0x0103, port_change = 0x001F, port_flags = 0\<rparr>]\<rparr>"
  have pa: "ports_allocated ?b" "ports_allocated ?c"
    by (simp_all add: ports_allocated_def vhci_start_def)
  have pc: "port_count ?b = 1" "port_count ?c = 1" by (simp_all add: vhci_start_def)
  from change_bit_kept [OF refl, where hw_accessible = True and typeReq = SetPortFeature
      and wValue = USB_PORT_FEAT_SUSPEND and wIndex = 1 and wLength = 0 and k = 0 and b = 0
      and vhc = ?a]
  have "bit (port_change (ports (fst (snd (snd
      (vhci_hub_control True ?a SetPortFeature USB_PORT_FEAT_SUSPEND 1 0)))) ! 0)) 0"
    by (simp add: type_req_defs port_feat_defs)
  moreover
  from change_bit_kept [OF refl, where hw_accessible = True and typeReq = ClearPortFeature
      and wValue = USB_PORT_FEAT_C_ENABLE and wIndex = 1 and wLength = 0 and k = 0 and b = 0
      and vhc = ?b] pa(1) pc(1)
  have "port_change (ports (fst (snd (snd
      (vhci_hub_control True ?b ClearPortFeature USB_PORT_FEAT_C_ENABLE 1 0)))) ! 0) = 0x0001"
    by (simp add: port_feat_defs)
  moreover
  from change_bit_kept [OF refl, where hw_accessible = True and typeReq = ClearPortFeature
      and wValue = USB_PORT_FEAT_POWER and wIndex = 1 and wLength = 0 and k = 0 and b = 0
      and vhc = ?c] pa(2) pc(2)
  have "port_change (ports (fst (snd (snd
      (vhci_hub_control True ?c ClearPortFeature USB_PORT_FEAT_POWER 1 0)))) ! 0) = 0x0008"
    by (simp add: port_feat_defs port_stat_defs)
  moreover
  from change_bit_kept [OF refl, where hw_accessible = True and typeReq = ClearPortFeature
      and wValue = USB_PORT_FEAT_ENABLE and wIndex = 1 and wLength = 0 and k = 0 and b = 0
      and vhc = ?c] pa(2) pc(2)
  have "port_change (ports (fst (snd (snd
      (vhci_hub_control True ?c ClearPortFeature USB_PORT_FEAT_ENABLE 1 0)))) ! 0) = 0x0019"
    by (simp add: port_feat_defs port_stat_defs)
  ultimately show ?thesis by simp
qed

text \<open>
  Claim C5 as stated says that only the acknowledgment of a change bit clears it.
  On a powered port with the connection change bit set, \<^verbatim>\<open>ClearPortFeature(POWER)\<close>
  clears that bit, although the request is not \<^verbatim>\<open>ClearPortFeature(C_CONNECTION)\<close>.
\<close>

theorem change_bit_kept_counterexample:
  "bit (port_change (ports
      ((vhci_start 1)\<lparr>ports := [\<lparr>port_status = 0x0101, port_change = 0x0001, port_flags = 0\<rparr>]\<rparr>) ! 0)) 0
   \<and> USB_PORT_FEAT_POWER \<noteq> USB_PORT_FEAT_C_CONNECTION
   \<and> \<not> bit (port_change (ports (fst (snd (snd
      (vhci_hub_control True
         ((vhci_start 1)\<lparr>ports := [\<lparr>port_status = 0x0101, port_change = 0x0001, port_flags = 0\<rparr>]\<rparr>)
         ClearPortFeature USB_PORT_FEAT_POWER 1 0)))) ! 0)) 0"
  unfolding vhci_hub_control_def hub_request_ClearPortFeature clear_port_feature_def
    userspace_needs_port_update_def set_port_def Let_def
  by (simp add: vhci_start_def port_feat_defs port_stat_defs)

subsection \<open>Resetting a port\<close>

text \<open>
  Claim C7, as amended. On an accessible controller, \<^verbatim>\<open>SetPortFeature(RESET)\<close> for
  an existing port returns 0. If the port is connected and not in reset, its status
  becomes the old power, connection, low-speed, high-speed and over-current bits
  plus the reset bit, its resuming flag is cleared, its change bits are left as
  they were, the bit of the port in \<^verbatim>\<open>port_update\<close> is set and the work queue is
  woken; nothing else of the state changes. If the port is not connected or is
  already in reset, the state is unchanged.
\<close>

theorem set_port_feature_reset:
  assumes "hw_accessible" and "ports_allocated vhc"
    and "wIndex \<noteq> 0" and "unat wIndex \<le> port_count vhc"
  shows
    "let i = unat wIndex - 1;
         p = ports vhc ! i;
         p' = p\<lparr>port_status :=
                  (port_status p AND
                     (USB_PORT_STAT_POWER OR USB_PORT_STAT_CONNECTION
                      OR USB_PORT_STAT_LOW_SPEED OR USB_PORT_STAT_HIGH_SPEED
                      OR USB_PORT_STAT_OVERCURRENT))
                  OR USB_PORT_STAT_RESET,
                port_flags := port_flags p AND NOT USB_VHCI_PORT_STAT_FLAG_RESUMING\<rparr>;
         vhc' = vhc\<lparr>ports := (ports vhc)[i := p'],
                    port_update := port_update vhc OR push_bit (unat wIndex) 1\<rparr>
     in
       if port_status p AND USB_PORT_STAT_CONNECTION \<noteq> 0
          \<and> port_status p AND USB_PORT_STAT_RESET = 0
       then
         vhci_hub_control hw_accessible vhc SetPortFeature USB_PORT_FEAT_RESET wIndex 0 =
           (0, [], vhc', WorkEvent # (if has_changes vhc' then [PollRhStatus] else []))
         \<and> ports vhc' ! i = p'
         \<and> port_change p' = port_change p
         \<and> port_flags p' AND USB_VHCI_PORT_STAT_FLAG_RESUMING = 0
         \<and> bit (port_update vhc') (unat wIndex)
       else
         vhci_hub_control hw_accessible vhc SetPortFeature USB_PORT_FEAT_RESET wIndex 0 =
           (0, [], vhc, if has_changes vhc then [PollRhStatus] else [])"
proof -
  have "0 < unat wIndex" using assms(3) by (simp add: unat_gt_0)
  with assms(2,4) have idx: "unat wIndex - 1 < length (ports vhc)" "unat wIndex < 32"
    "unat wIndex mod 256 = unat wIndex"
    by (auto simp: ports_allocated_def)
  have flags: "(f AND NOT USB_VHCI_PORT_STAT_FLAG_RESUMING) AND USB_VHCI_PORT_STAT_FLAG_RESUMING = 0"
    for f :: u8
    by (simp add: and.assoc)
  show ?thesis
    using assms(1,3,4) idx
    unfolding vhci_hub_control_def hub_request_SetPortFeature set_port_feature_RESET Let_def
      userspace_needs_port_update_def set_port_def
    by (simp add: flags bit_simps)
qed

theorem set_port_feature_reset_witness:
  "vhci_hub_control True
     ((vhci_start 4)\<lparr>ports :=
        [\<lparr>port_status = 0, port_change = 0, port_flags = 0\<rparr>,
         \<lparr>port_status = 0, port_change = 0, port_flags = 0\<rparr>,
         \<lparr>port_status = 0x0507, port_change = 0, port_flags = 0x01\<rparr>,
         \<lparr>port_status = 0, port_change = 0, port_flags = 0\<rparr>]\<rparr>)
     SetPortFeature USB_PORT_FEAT_RESET 3 0 =
   (0, [],
    (vhci_start 4)\<lparr>ports :=
        [\<lparr>port_status = 0, port_change = 0, port_flags = 0\<rparr>,
         \<lparr>port_status = 0, port_change = 0, port_flags = 0\<rparr>,
         \<lparr>port_status = 0x0511, port_change = 0, port_flags = 0\<rparr>,
         \<lparr>port_status = 0, port_change = 0, port_flags = 0\<rparr>],
      port_update := 8\<rparr>,
    [WorkEvent])
   \<and> vhci_hub_control True (vhci_start 4) SetPortFeature USB_PORT_FEAT_RESET 3 0 =
     (0, [], vhci_start 4, [])"
  using set_port_feature_reset [where hw_accessible = True and wIndex = 3 and vhc =
      "(vhci_start 4)\<lparr>ports :=
        [\<lparr>port_status = 0, port_change = 0, port_flags = 0\<rparr>,
         \<lparr>port_status = 0, port_change = 0, port_flags = 0\<rparr>,
         \<lparr>port_status = 0x0507, port_change = 0, port_flags = 0x01\<rparr>,
         \<lparr>port_status = 0, port_change = 0, port_flags = 0\<rparr>]\<rparr>"]
    set_port_feature_reset [where hw_accessible = True and wIndex = 3 and vhc = "vhci_start 4"]
  by (simp add: vhci_start_def ports_allocated_def has_changes_def port_stat_defs
      USB_VHCI_PORT_STAT_FLAG_RESUMING_def Let_def list_ex_iff)

text \<open>
  Claim C7 as stated also has the reset change bit set by the request. The code
  does not touch \<^verbatim>\<open>port_change\<close> there (\<^verbatim>\<open>ioc_port_stat\<close> sets the bit when the
  worker reports the end of the reset): after the request on a connected port the
  reset change bit is still clear.
\<close>

theorem set_port_feature_reset_counterexample:
  "port_change (ports (fst (snd (snd
      (vhci_hub_control True
         ((vhci_start 1)\<lparr>ports := [\<lparr>port_status = 0x0101, port_change = 0, port_flags = 0\<rparr>]\<rparr>)
         SetPortFeature USB_PORT_FEAT_RESET 1 0)))) ! 0) AND USB_PORT_STAT_C_RESET = 0"
  unfolding vhci_hub_control_def hub_request_SetPortFeature set_port_feature_RESET
    userspace_needs_port_update_def set_port_def Let_def
  by (simp add: vhci_start_def port_stat_defs)

subsection \<open>The status of a submitted transfer\<close>

text \<open>
  Claim C3 (the code departs from it). \<^verbatim>\<open>maybe_set_status\<close> writes the status only
  while it is \<^verbatim>\<open>-EINPROGRESS\<close>, but \<^verbatim>\<open>vhci_urb_enqueue\<close> never stores that value: the
  entry comes from \<^verbatim>\<open>kzalloc\<close> and only its \<^verbatim>\<open>urb\<close> field is assigned. A submitted
  transfer therefore has status 0, not "in progress", and no later
  \<^verbatim>\<open>maybe_set_status\<close> changes it; here with the status of a shutdown.
\<close>

theorem enqueue_status_zero:
  "vhci_urb_enqueue (vhci_start 2) (sample_urb 1 PIPE_BULK False) True 0 =
     (0,
      (vhci_start 2)\<lparr>urbp_list_inbox :=
         [\<lparr>urbp_urb = sample_urb 1 PIPE_BULK False, urbp_status = 0\<rparr>]\<rparr>,
      [WorkEvent])
   \<and> (0::int) \<noteq> - EINPROGRESS
   \<and> maybe_set_status \<lparr>urbp_urb = sample_urb 1 PIPE_BULK False, urbp_status = 0\<rparr> (- ESHUTDOWN) =
       \<lparr>urbp_urb = sample_urb 1 PIPE_BULK False, urbp_status = 0\<rparr>"
  by (simp add: vhci_urb_enqueue_def sample_urb_def vhci_start_def maybe_set_status_def)

subsection \<open>Which work a fetch returns\<close>

lemma filter_other_ptr:
  "ptr \<notin> set (urb_ptrs xs) \<Longrightarrow> filter (\<lambda>entry. urb_ptr (urbp_urb entry) \<noteq> ptr) xs = xs"
  by (induction xs) (auto simp: urb_ptrs_def)

lemma list_del_inbox_head:
  assumes "linked_once vhc" and "urbp_list_inbox vhc = u # rest"
    and "urb_ptr (urbp_urb u') = urb_ptr (urbp_urb u)"
  shows "list_del u' vhc = vhc\<lparr>urbp_list_inbox := rest\<rparr>"
proof -
  let ?ptr = "urb_ptr (urbp_urb u)"
  from assms(1,2) have
    "?ptr \<notin> set (urb_ptrs rest)" "?ptr \<notin> set (urb_ptrs (urbp_list_fetched vhc))"
    "?ptr \<notin> set (urb_ptrs (urbp_list_cancel vhc))"
    "?ptr \<notin> set (urb_ptrs (urbp_list_canceling vhc))"
    by (auto simp: linked_once_def urb_ptrs_def)
  then have "filter (\<lambda>entry. urb_ptr (urbp_urb entry) \<noteq> ?ptr) (urbp_list_inbox vhc) = rest"
    "filter (\<lambda>entry. urb_ptr (urbp_urb entry) \<noteq> ?ptr) (urbp_list_fetched vhc)
       = urbp_list_fetched vhc"
    "filter (\<lambda>entry. urb_ptr (urbp_urb entry) \<noteq> ?ptr) (urbp_list_cancel vhc)
       = urbp_list_cancel vhc"
    "filter (\<lambda>entry. urb_ptr (urbp_urb entry) \<noteq> ?ptr) (urbp_list_canceling vhc)
       = urbp_list_canceling vhc"
    by (simp_all add: assms(2) filter_other_ptr)
  then show ?thesis
    unfolding list_del_def Let_def assms(3) by simp
qed

lemma linked_once_inbox_tail:
  "linked_once vhc \<Longrightarrow> urbp_list_inbox vhc = u # rest \<Longrightarrow>
   linked_once (vhc\<lparr>urbp_list_inbox := rest\<rparr>)"
  by (simp add: linked_once_def urb_ptrs_def)

lemma maybe_set_status_urb: "urbp_urb (maybe_set_status urbp status) = urbp_urb urbp"
  by (simp add: maybe_set_status_def)

lemma maybe_set_status_status:
  "urbp_status (maybe_set_status urbp status) =
     (if urbp_status urbp = - EINPROGRESS then status else urbp_status urbp)"
  by (simp add: maybe_set_status_def)

lemma fetch_inbox_result:
  assumes "linked_once vhc"
  shows "fetch_inbox vhc =
     (case dropWhile (\<lambda>e. invalid_urb (urbp_urb e)) (urbp_list_inbox vhc) of
        [] \<Rightarrow>
          (- ENODATA, None, vhc\<lparr>urbp_list_inbox := []\<rparr>,
           map (\<lambda>e. Giveback (urbp_urb e)
                  (if urbp_status e = - EINPROGRESS then - EPIPE else urbp_status e))
             (urbp_list_inbox vhc))
      | u # rest \<Rightarrow>
          (0, Some (process_urb (urbp_urb u)),
           vhc\<lparr>urbp_list_inbox := rest, urbp_list_fetched := urbp_list_fetched vhc @ [u]\<rparr>,
           map (\<lambda>e. Giveback (urbp_urb e)
                  (if urbp_status e = - EINPROGRESS then - EPIPE else urbp_status e))
             (takeWhile (\<lambda>e. invalid_urb (urbp_urb e)) (urbp_list_inbox vhc))))"
  using assms
proof (induction "urbp_list_inbox vhc" arbitrary: vhc)
  case Nil
  then have "urbp_list_inbox vhc = []" by simp
  then show ?case by (subst fetch_inbox.simps) simp
next
  case (Cons u rest)
  then have inbox: "urbp_list_inbox vhc = u # rest" by simp
  show ?case
  proof (cases "invalid_urb (urbp_urb u)")
    case True
    let ?vhc1 = "vhc\<lparr>urbp_list_inbox := rest\<rparr>"
    have del: "list_del (maybe_set_status u (- EPIPE)) vhc = ?vhc1"
      using Cons.prems inbox by (rule list_del_inbox_head) (simp add: maybe_set_status_urb)
    have gb: "vhci_urb_giveback vhc (maybe_set_status u (- EPIPE)) =
      (?vhc1, [Giveback (urbp_urb u)
                 (if urbp_status u = - EINPROGRESS then - EPIPE else urbp_status u)])"
      unfolding vhci_urb_giveback_def Let_def del
      by (simp add: maybe_set_status_urb maybe_set_status_status)
    have "linked_once ?vhc1" using Cons.prems inbox by (rule linked_once_inbox_tail)
    moreover have "rest = urbp_list_inbox ?vhc1" by simp
    ultimately have IH: "fetch_inbox ?vhc1 =
     (case dropWhile (\<lambda>e. invalid_urb (urbp_urb e)) (urbp_list_inbox ?vhc1) of
        [] \<Rightarrow>
          (- ENODATA, None, ?vhc1\<lparr>urbp_list_inbox := []\<rparr>,
           map (\<lambda>e. Giveback (urbp_urb e)
                  (if urbp_status e = - EINPROGRESS then - EPIPE else urbp_status e))
             (urbp_list_inbox ?vhc1))
      | u # rest' \<Rightarrow>
          (0, Some (process_urb (urbp_urb u)),
           ?vhc1\<lparr>urbp_list_inbox := rest', urbp_list_fetched := urbp_list_fetched ?vhc1 @ [u]\<rparr>,
           map (\<lambda>e. Giveback (urbp_urb e)
                  (if urbp_status e = - EINPROGRESS then - EPIPE else urbp_status e))
             (takeWhile (\<lambda>e. invalid_urb (urbp_urb e)) (urbp_list_inbox ?vhc1))))"
      using Cons.hyps(1) by blast
    show ?thesis
    proof (cases "dropWhile (\<lambda>e. invalid_urb (urbp_urb e)) rest")
      case Nil
      show ?thesis
        by (subst fetch_inbox.simps)
          (simp add: inbox True gb IH Nil del: dropWhile_eq_Nil_conv)
    next
      case (Cons v rest')
      show ?thesis
        by (subst fetch_inbox.simps)
          (simp add: inbox True gb IH Cons del: dropWhile_eq_Nil_conv)
    qed
  next
    case False
    have del: "list_del u vhc = vhc\<lparr>urbp_list_inbox := rest\<rparr>"
      using Cons.prems inbox by (rule list_del_inbox_head) simp
    have mv: "move_to_fetched u vhc =
      vhc\<lparr>urbp_list_inbox := rest, urbp_list_fetched := urbp_list_fetched vhc @ [u]\<rparr>"
      unfolding move_to_fetched_def del by simp
    show ?thesis
      by (subst fetch_inbox.simps) (simp add: inbox False mv)
  qed
qed

lemma port_loop_unfold:
  assumes "port_count vhc \<le> 256"
  shows "port_loop vhc n =
     (if n < port_count vhc then
        (if bit (port_update vhc) ((n + port_sched_offset vhc) mod port_count vhc + 1)
         then Some ((n + port_sched_offset vhc) mod port_count vhc)
         else port_loop vhc (n + 1))
      else None)"
proof (cases "n < port_count vhc")
  case True
  then have "(n + port_sched_offset vhc) mod port_count vhc < port_count vhc" by simp
  with assms have "(n + port_sched_offset vhc) mod port_count vhc mod 256
      = (n + port_sched_offset vhc) mod port_count vhc" by simp
  then show ?thesis
    by (subst port_loop.simps) (simp only: Let_def test_bit_iff)
next
  case False
  then show ?thesis by (subst port_loop.simps) simp
qed

lemma port_loop_Some:
  assumes "port_loop vhc n = Some port" and "port_count vhc \<le> 256"
  shows "\<exists>m. n \<le> m \<and> m < port_count vhc
      \<and> port = (m + port_sched_offset vhc) mod port_count vhc
      \<and> bit (port_update vhc) (port + 1)
      \<and> (\<forall>j. n \<le> j \<and> j < m \<longrightarrow>
            \<not> bit (port_update vhc) ((j + port_sched_offset vhc) mod port_count vhc + 1))"
  using assms
proof (induction "port_count vhc - n" arbitrary: n)
  case 0
  then have "\<not> n < port_count vhc" by simp
  with 0 port_loop_unfold [OF \<open>port_count vhc \<le> 256\<close>, of n] show ?case by simp
next
  case (Suc d)
  then have lt: "n < port_count vhc" by simp
  show ?case
  proof (cases "bit (port_update vhc) ((n + port_sched_offset vhc) mod port_count vhc + 1)")
    case True
    with Suc.prems lt port_loop_unfold [OF Suc.prems(2), of n]
    have "port = (n + port_sched_offset vhc) mod port_count vhc"
      by simp
    with True lt show ?thesis by (intro exI [of _ n]) auto
  next
    case False
    with Suc.prems lt port_loop_unfold [OF Suc.prems(2), of n]
    have next_loop: "port_loop vhc (n + 1) = Some port"
      by simp
    from Suc.hyps(2) have "d = port_count vhc - (n + 1)" by simp
    from Suc.hyps(1) [OF this next_loop Suc.prems(2)]
    obtain m where m: "n + 1 \<le> m" "m < port_count vhc"
      "port = (m + port_sched_offset vhc) mod port_count vhc"
      "bit (port_update vhc) (port + 1)"
      "\<forall>j. n + 1 \<le> j \<and> j < m \<longrightarrow>
            \<not> bit (port_update vhc) ((j + port_sched_offset vhc) mod port_count vhc + 1)"
      by blast
    have "\<forall>j. n \<le> j \<and> j < m \<longrightarrow>
            \<not> bit (port_update vhc) ((j + port_sched_offset vhc) mod port_count vhc + 1)"
    proof (intro allI impI)
      fix j assume "n \<le> j \<and> j < m"
      then consider "j = n" | "n + 1 \<le> j \<and> j < m" by linarith
      then show "\<not> bit (port_update vhc) ((j + port_sched_offset vhc) mod port_count vhc + 1)"
        using False m(5) by cases auto
    qed
    with m show ?thesis by (intro exI [of _ m]) auto
  qed
qed

lemma port_loop_None:
  assumes "port_loop vhc n = None" and "port_count vhc \<le> 256"
    and "n \<le> m" and "m < port_count vhc"
  shows "\<not> bit (port_update vhc) ((m + port_sched_offset vhc) mod port_count vhc + 1)"
  using assms
proof (induction "port_count vhc - n" arbitrary: n)
  case 0
  then show ?case by simp
next
  case (Suc d)
  then have lt: "n < port_count vhc" by simp
  from Suc.prems(1) lt port_loop_unfold [OF Suc.prems(2), of n]
  have here: "\<not> bit (port_update vhc) ((n + port_sched_offset vhc) mod port_count vhc + 1)"
    and next_loop: "port_loop vhc (n + 1) = None"
    by (auto split: if_splits)
  show ?case
  proof (cases "m = n")
    case True
    with here show ?thesis by simp
  next
    case False
    with Suc.prems(3) have "n + 1 \<le> m" by simp
    moreover from Suc.hyps(2) have "d = port_count vhc - (n + 1)" by simp
    ultimately show ?thesis
      using Suc.hyps(1) next_loop Suc.prems(2,4) by blast
  qed
qed

lemma port_loop_finds:
  assumes "p < port_count vhc" and "bit (port_update vhc) (p + 1)"
    and "port_count vhc \<le> 256" and "port_sched_offset vhc < port_count vhc"
  shows "port_loop vhc 0 \<noteq> None"
proof
  assume none: "port_loop vhc 0 = None"
  let ?N = "port_count vhc" and ?s = "port_sched_offset vhc"
  let ?m = "(p + ?N - ?s) mod ?N"
  have "?m < ?N" using assms(1) by simp
  have "(?m + ?s) mod ?N = (p + ?N - ?s + ?s) mod ?N"
    by (simp add: mod_add_left_eq)
  also have "\<dots> = (p + ?N) mod ?N" using assms(4) by simp
  also have "\<dots> = p" using assms(1) by simp
  finally have "(?m + ?s) mod ?N = p" .
  with port_loop_None [OF none assms(3) _ \<open>?m < ?N\<close>] assms(2) show False by simp
qed

lemma list_del_cancel_head:
  assumes "linked_once vhc" and "urbp_list_cancel vhc = u # rest"
  shows "list_del u vhc = vhc\<lparr>urbp_list_cancel := rest\<rparr>"
proof -
  let ?ptr = "urb_ptr (urbp_urb u)"
  from assms have
    "?ptr \<notin> set (urb_ptrs rest)" "?ptr \<notin> set (urb_ptrs (urbp_list_fetched vhc))"
    "?ptr \<notin> set (urb_ptrs (urbp_list_inbox vhc))"
    "?ptr \<notin> set (urb_ptrs (urbp_list_canceling vhc))"
    by (auto simp: linked_once_def urb_ptrs_def)
  then have "filter (\<lambda>entry. urb_ptr (urbp_urb entry) \<noteq> ?ptr) (urbp_list_cancel vhc) = rest"
    "filter (\<lambda>entry. urb_ptr (urbp_urb entry) \<noteq> ?ptr) (urbp_list_fetched vhc)
       = urbp_list_fetched vhc"
    "filter (\<lambda>entry. urb_ptr (urbp_urb entry) \<noteq> ?ptr) (urbp_list_inbox vhc)
       = urbp_list_inbox vhc"
    "filter (\<lambda>entry. urb_ptr (urbp_urb entry) \<noteq> ?ptr) (urbp_list_canceling vhc)
       = urbp_list_canceling vhc"
    by (simp_all add: assms(2) filter_other_ptr)
  then show ?thesis
    unfolding list_del_def Let_def by simp
qed

lemma fetch_work_locked_cancel:
  assumes "linked_once vhc" and "urbp_list_cancel vhc = u # rest"
  shows "fetch_work_locked vhc =
     (0, Some (CANCEL_URB (urb_ptr (urbp_urb u))),
      vhc\<lparr>urbp_list_cancel := rest, urbp_list_canceling := urbp_list_canceling vhc @ [u]\<rparr>,
      [])"
proof -
  have "move_to_canceling u vhc =
      vhc\<lparr>urbp_list_cancel := rest, urbp_list_canceling := urbp_list_canceling vhc @ [u]\<rparr>"
    unfolding move_to_canceling_def list_del_cancel_head [OF assms] by simp
  then show ?thesis
    unfolding fetch_work_locked_def by (simp add: assms(2))
qed

lemma ioc_fetch_work_ok:
  assumes "ioc_fetch_work vhc timeout wret = (0, w, vhc', effs)"
  shows "fetch_work_locked vhc = (0, w, vhc', effs)"
  using assms unfolding ioc_fetch_work_def by (auto split: if_splits)

lemma bit_imp_port_update: "bit (port_update vhc) n \<Longrightarrow> port_update vhc \<noteq> 0"
  by auto

lemma fetch_work_locked_ports:
  assumes "urbp_list_cancel vhc = []" and "port_update vhc \<noteq> 0"
  shows "fetch_work_locked vhc =
     (let vhc1 = (if port_sched_offset vhc \<ge> port_count vhc
                  then vhc\<lparr>port_sched_offset := 0\<rparr> else vhc)
      in case port_loop vhc1 0 of
           Some port \<Rightarrow>
             (0,
              Some (PORT_STAT (port + 1)
                (port_status (ports vhc ! port))
                (port_change (ports vhc ! port))
                (port_flags (ports vhc ! port))),
              vhc\<lparr>port_update := port_update vhc AND NOT (push_bit (port + 1) 1),
                  port_sched_offset := (port + 1) mod 256\<rparr>,
              [])
         | None \<Rightarrow> fetch_inbox vhc1)"
  unfolding fetch_work_locked_def using assms
  by (simp add: Let_def split: option.split)

lemma fetch_work_locked_idle:
  assumes "urbp_list_cancel vhc = []" and "port_update vhc = 0"
  shows "fetch_work_locked vhc = fetch_inbox vhc"
  unfolding fetch_work_locked_def using assms by simp

lemma fetch_serves_cancel:
  assumes "linked_once vhc" and "urbp_list_cancel vhc \<noteq> []"
    and "fetch_work_locked vhc = (retval, w, vhc', effs)"
  shows "retval = 0
    \<and> w = Some (CANCEL_URB (urb_ptr (urbp_urb (hd (urbp_list_cancel vhc)))))
    \<and> vhc' = vhc\<lparr>urbp_list_cancel := tl (urbp_list_cancel vhc),
                   urbp_list_canceling := urbp_list_canceling vhc @ [hd (urbp_list_cancel vhc)]\<rparr>
    \<and> effs = []"
proof -
  from assms(2) obtain u rest where c: "urbp_list_cancel vhc = u # rest"
    by (cases "urbp_list_cancel vhc") auto
  from fetch_work_locked_cancel [OF assms(1) c] assms(3) show ?thesis
    by (simp add: c)
qed

lemma fetch_serves_port:
  assumes "ports_allocated vhc" and "urbp_list_cancel vhc = []"
    and "p < port_count vhc" and "bit (port_update vhc) (p + 1)"
    and "fetch_work_locked vhc = (retval, w, vhc', effs)"
  shows "retval = 0
    \<and> (\<exists>port < port_count vhc. bit (port_update vhc) (port + 1)
          \<and> w = Some (PORT_STAT (port + 1) (port_status (ports vhc ! port))
                  (port_change (ports vhc ! port)) (port_flags (ports vhc ! port)))
          \<and> vhc' = vhc\<lparr>port_update := port_update vhc AND NOT (push_bit (port + 1) 1),
                         port_sched_offset := port + 1\<rparr>)
    \<and> effs = []"
proof -
  let ?vhc1 = "if port_sched_offset vhc \<ge> port_count vhc
               then vhc\<lparr>port_sched_offset := 0\<rparr> else vhc"
  from assms(1) have N31: "port_count vhc \<le> 31" by (simp add: ports_allocated_def)
  then have N: "port_count vhc \<le> 256" by simp
  have same: "port_count ?vhc1 = port_count vhc" "port_update ?vhc1 = port_update vhc"
    by simp_all
  have off: "port_sched_offset ?vhc1 < port_count ?vhc1" using assms(3) by simp
  have "port_loop ?vhc1 0 \<noteq> None"
    by (rule port_loop_finds [where p = p]) (use assms(3,4) N off in \<open>simp_all\<close>)
  then obtain port where found: "port_loop ?vhc1 0 = Some port" by blast
  from port_loop_Some [OF found] N same
  have port: "port < port_count vhc" "bit (port_update vhc) (port + 1)"
    by auto
  with N31 have "(port + 1) mod 256 = port + 1" by simp
  moreover from assms(4) have "port_update vhc \<noteq> 0" by (rule bit_imp_port_update)
  ultimately have "fetch_work_locked vhc =
      (0,
       Some (PORT_STAT (port + 1) (port_status (ports vhc ! port))
         (port_change (ports vhc ! port)) (port_flags (ports vhc ! port))),
       vhc\<lparr>port_update := port_update vhc AND NOT (push_bit (port + 1) 1),
           port_sched_offset := port + 1\<rparr>,
       [])"
    using fetch_work_locked_ports [OF assms(2)] found by (simp add: Let_def)
  with assms(5) port show ?thesis by auto
qed

lemma fetch_inbox_ok:
  assumes "linked_once vhc" and "fetch_inbox vhc = (0, w, vhc', effs)"
  shows "\<exists>old u rest. urbp_list_inbox vhc = old @ u # rest
      \<and> (\<forall>e \<in> set old. invalid_urb (urbp_urb e)) \<and> \<not> invalid_urb (urbp_urb u)
      \<and> w = Some (process_urb (urbp_urb u))
      \<and> urbp_list_inbox vhc' = rest
      \<and> urbp_list_fetched vhc' = urbp_list_fetched vhc @ [u]
      \<and> urbp_list_cancel vhc' = urbp_list_cancel vhc
      \<and> urbp_list_canceling vhc' = urbp_list_canceling vhc
      \<and> effs = map (\<lambda>e. Giveback (urbp_urb e)
                  (if urbp_status e = - EINPROGRESS then - EPIPE else urbp_status e)) old"
proof (cases "dropWhile (\<lambda>e. invalid_urb (urbp_urb e)) (urbp_list_inbox vhc)")
  case Nil
  with fetch_inbox_result [OF assms(1)] assms(2) show ?thesis
    by (simp del: dropWhile_eq_Nil_conv)
next
  case (Cons u rest)
  let ?old = "takeWhile (\<lambda>e. invalid_urb (urbp_urb e)) (urbp_list_inbox vhc)"
  have split: "urbp_list_inbox vhc = ?old @ u # rest"
    using takeWhile_dropWhile_id [of "\<lambda>e. invalid_urb (urbp_urb e)" "urbp_list_inbox vhc"]
    unfolding Cons by simp
  have old: "\<forall>e \<in> set ?old. invalid_urb (urbp_urb e)"
    by (auto dest: set_takeWhileD)
  have valid: "\<not> invalid_urb (urbp_urb u)"
    using hd_dropWhile [of "\<lambda>e. invalid_urb (urbp_urb e)" "urbp_list_inbox vhc"]
    unfolding Cons by simp
  from fetch_inbox_result [OF assms(1)] assms(2)
  have "w = Some (process_urb (urbp_urb u))"
    "vhc' = vhc\<lparr>urbp_list_inbox := rest, urbp_list_fetched := urbp_list_fetched vhc @ [u]\<rparr>"
    "effs = map (\<lambda>e. Giveback (urbp_urb e)
                  (if urbp_status e = - EINPROGRESS then - EPIPE else urbp_status e)) ?old"
    unfolding Cons by simp_all
  with split old valid show ?thesis
    by (intro exI [of _ ?old] exI [of _ u] exI [of _ rest]) simp
qed

lemma fetch_serves_inbox:
  assumes "linked_once vhc" and "ports_allocated vhc" and "urbp_list_cancel vhc = []"
    and "\<not> (\<exists>p < port_count vhc. bit (port_update vhc) (p + 1))"
    and "fetch_work_locked vhc = (0, w, vhc', effs)"
  shows "\<exists>old u rest. urbp_list_inbox vhc = old @ u # rest
      \<and> (\<forall>e \<in> set old. invalid_urb (urbp_urb e)) \<and> \<not> invalid_urb (urbp_urb u)
      \<and> w = Some (process_urb (urbp_urb u))
      \<and> urbp_list_inbox vhc' = rest
      \<and> urbp_list_fetched vhc' = urbp_list_fetched vhc @ [u]
      \<and> urbp_list_cancel vhc' = urbp_list_cancel vhc
      \<and> urbp_list_canceling vhc' = urbp_list_canceling vhc
      \<and> effs = map (\<lambda>e. Giveback (urbp_urb e)
                  (if urbp_status e = - EINPROGRESS then - EPIPE else urbp_status e)) old"
proof -
  let ?vhc1 = "if port_sched_offset vhc \<ge> port_count vhc
               then vhc\<lparr>port_sched_offset := 0\<rparr> else vhc"
  from assms(2) have N: "port_count vhc \<le> 256" by (simp add: ports_allocated_def)
  have same: "port_count ?vhc1 = port_count vhc" "port_update ?vhc1 = port_update vhc"
    "urbp_list_inbox ?vhc1 = urbp_list_inbox vhc"
    "urbp_list_fetched ?vhc1 = urbp_list_fetched vhc"
    "urbp_list_cancel ?vhc1 = urbp_list_cancel vhc"
    "urbp_list_canceling ?vhc1 = urbp_list_canceling vhc"
    by simp_all
  have lo1: "linked_once ?vhc1" using assms(1) by (simp add: linked_once_def)
  have none: "port_loop ?vhc1 0 = None"
  proof (rule ccontr)
    assume "port_loop ?vhc1 0 \<noteq> None"
    then obtain port where found: "port_loop ?vhc1 0 = Some port" by blast
    from port_loop_Some [OF found] N same
    have "port < port_count vhc" "bit (port_update vhc) (port + 1)" by auto
    with assms(4) show False by blast
  qed
  have "fetch_inbox ?vhc1 = (0, w, vhc', effs) \<or> fetch_inbox vhc = (0, w, vhc', effs)"
  proof (cases "port_update vhc = 0")
    case True
    with fetch_work_locked_idle [OF assms(3)] assms(5) show ?thesis by simp
  next
    case False
    with fetch_work_locked_ports [OF assms(3)] assms(5) none show ?thesis
      by (simp add: Let_def)
  qed
  then show ?thesis
  proof
    assume "fetch_inbox ?vhc1 = (0, w, vhc', effs)"
    from fetch_inbox_ok [OF lo1 this] show ?thesis unfolding same .
  next
    assume "fetch_inbox vhc = (0, w, vhc', effs)"
    from fetch_inbox_ok [OF assms(1) this] show ?thesis .
  qed
qed

text \<open>
  Claim C1, as amended. A call of \<^verbatim>\<open>ioc_fetch_work\<close> that returns 0 stores exactly one
  unit of work, chosen in this order. If the list of URBs to cancel is not empty, the
  unit is the cancellation of its first entry, which moves to the end of the list of
  URBs being canceled. Otherwise, if the update bit of some port is set, the unit is
  the status of such a port, whose bit is cleared. Otherwise the unit is the oldest
  URB of the inbox that passes the checks: every URB before it in the inbox is
  malformed and is given back by this call, and the URB moves to the end of the list
  of fetched URBs.
\<close>

theorem fetch_work_priority:
  assumes "linked_once vhc" and "ports_allocated vhc"
    and "ioc_fetch_work vhc timeout wret = (0, w, vhc', effs)"
  shows
    "(urbp_list_cancel vhc \<noteq> [] \<longrightarrow>
        w = Some (CANCEL_URB (urb_ptr (urbp_urb (hd (urbp_list_cancel vhc)))))
        \<and> vhc' = vhc\<lparr>urbp_list_cancel := tl (urbp_list_cancel vhc),
                       urbp_list_canceling :=
                         urbp_list_canceling vhc @ [hd (urbp_list_cancel vhc)]\<rparr>
        \<and> effs = [])
     \<and> (urbp_list_cancel vhc = [] \<and> (\<exists>p < port_count vhc. bit (port_update vhc) (p + 1)) \<longrightarrow>
        (\<exists>port < port_count vhc. bit (port_update vhc) (port + 1)
          \<and> w = Some (PORT_STAT (port + 1) (port_status (ports vhc ! port))
                  (port_change (ports vhc ! port)) (port_flags (ports vhc ! port)))
          \<and> vhc' = vhc\<lparr>port_update := port_update vhc AND NOT (push_bit (port + 1) 1),
                         port_sched_offset := port + 1\<rparr>)
        \<and> effs = [])
     \<and> (urbp_list_cancel vhc = [] \<and> \<not> (\<exists>p < port_count vhc. bit (port_update vhc) (p + 1)) \<longrightarrow>
        (\<exists>old u rest. urbp_list_inbox vhc = old @ u # rest
          \<and> (\<forall>e \<in> set old. invalid_urb (urbp_urb e)) \<and> \<not> invalid_urb (urbp_urb u)
          \<and> w = Some (process_urb (urbp_urb u))
          \<and> urbp_list_inbox vhc' = rest
          \<and> urbp_list_fetched vhc' = urbp_list_fetched vhc @ [u]
          \<and> urbp_list_cancel vhc' = urbp_list_cancel vhc
          \<and> urbp_list_canceling vhc' = urbp_list_canceling vhc
          \<and> effs = map (\<lambda>e. Giveback (urbp_urb e)
                  (if urbp_status e = - EINPROGRESS then - EPIPE else urbp_status e)) old))
     \<and> (\<exists>unit. w = Some unit)"
proof -
  have locked: "fetch_work_locked vhc = (0, w, vhc', effs)"
    using assms(3) by (rule ioc_fetch_work_ok)
  have a: "urbp_list_cancel vhc \<noteq> [] \<Longrightarrow>
        w = Some (CANCEL_URB (urb_ptr (urbp_urb (hd (urbp_list_cancel vhc)))))
        \<and> vhc' = vhc\<lparr>urbp_list_cancel := tl (urbp_list_cancel vhc),
                       urbp_list_canceling :=
                         urbp_list_canceling vhc @ [hd (urbp_list_cancel vhc)]\<rparr>
        \<and> effs = []"
    using fetch_serves_cancel [OF assms(1) _ locked] by simp
  have b: "urbp_list_cancel vhc = [] \<Longrightarrow> \<exists>p < port_count vhc. bit (port_update vhc) (p + 1) \<Longrightarrow>
        (\<exists>port < port_count vhc. bit (port_update vhc) (port + 1)
          \<and> w = Some (PORT_STAT (port + 1) (port_status (ports vhc ! port))
                  (port_change (ports vhc ! port)) (port_flags (ports vhc ! port)))
          \<and> vhc' = vhc\<lparr>port_update := port_update vhc AND NOT (push_bit (port + 1) 1),
                         port_sched_offset := port + 1\<rparr>)
        \<and> effs = []"
    using fetch_serves_port [OF assms(2) _ _ _ locked] by blast
  have c: "urbp_list_cancel vhc = [] \<Longrightarrow>
        \<not> (\<exists>p < port_count vhc. bit (port_update vhc) (p + 1)) \<Longrightarrow>
        (\<exists>old u rest. urbp_list_inbox vhc = old @ u # rest
          \<and> (\<forall>e \<in> set old. invalid_urb (urbp_urb e)) \<and> \<not> invalid_urb (urbp_urb u)
          \<and> w = Some (process_urb (urbp_urb u))
          \<and> urbp_list_inbox vhc' = rest
          \<and> urbp_list_fetched vhc' = urbp_list_fetched vhc @ [u]
          \<and> urbp_list_cancel vhc' = urbp_list_cancel vhc
          \<and> urbp_list_canceling vhc' = urbp_list_canceling vhc
          \<and> effs = map (\<lambda>e. Giveback (urbp_urb e)
                  (if urbp_status e = - EINPROGRESS then - EPIPE else urbp_status e)) old)"
    using fetch_serves_inbox [OF assms(1,2) _ _ locked] by blast
  have d: "\<exists>unit. w = Some unit"
  proof (cases "urbp_list_cancel vhc = []")
    case False
    with a show ?thesis by blast
  next
    case True
    show ?thesis
    proof (cases "\<exists>p < port_count vhc. bit (port_update vhc) (p + 1)")
      case True
      with b \<open>urbp_list_cancel vhc = []\<close> show ?thesis by blast
    next
      case False
      with c \<open>urbp_list_cancel vhc = []\<close> show ?thesis by blast
    qed
  qed
  from a b c d show ?thesis by blast
qed

text \<open>Three calls on a controller with two ports, used in the closed theorems below.\<close>

lemma fetch_example_cancel: "ioc_fetch_work
      ((vhci_start 2)\<lparr>port_update := 4,
         urbp_list_inbox := [\<lparr>urbp_urb = sample_urb 5 PIPE_BULK False, urbp_status = 0\<rparr>],
         urbp_list_cancel := [\<lparr>urbp_urb = sample_urb 3 PIPE_BULK False, urbp_status = 0\<rparr>]\<rparr>)
      0 0 =
     (0, Some (CANCEL_URB 3),
      (vhci_start 2)\<lparr>port_update := 4,
         urbp_list_inbox := [\<lparr>urbp_urb = sample_urb 5 PIPE_BULK False, urbp_status = 0\<rparr>],
         urbp_list_cancel := [],
         urbp_list_canceling := [\<lparr>urbp_urb = sample_urb 3 PIPE_BULK False, urbp_status = 0\<rparr>]\<rparr>,
      [])"
  by (simp add: ioc_fetch_work_def has_work_def fetch_work_locked_def move_to_canceling_def
      list_del_def vhci_start_def sample_urb_def)

lemma fetch_example_port: "ioc_fetch_work
      ((vhci_start 2)\<lparr>port_update := 4,
         urbp_list_inbox := [\<lparr>urbp_urb = sample_urb 5 PIPE_BULK False, urbp_status = 0\<rparr>]\<rparr>)
      0 0 =
     (0, Some (PORT_STAT 2 0 0 0),
      (vhci_start 2)\<lparr>port_update := 0, port_sched_offset := 2,
         urbp_list_inbox := [\<lparr>urbp_urb = sample_urb 5 PIPE_BULK False, urbp_status = 0\<rparr>]\<rparr>,
      [])"
  by (simp add: ioc_fetch_work_def has_work_def fetch_work_locked_def port_loop.simps
      vhci_start_def sample_urb_def)

lemma fetch_example_inbox: "ioc_fetch_work
      ((vhci_start 2)\<lparr>
         urbp_list_inbox := [\<lparr>urbp_urb = sample_urb 4 PIPE_BULK True, urbp_status = 0\<rparr>,
                             \<lparr>urbp_urb = sample_urb 5 PIPE_BULK False, urbp_status = 0\<rparr>]\<rparr>)
      0 0 =
     (0, Some (process_urb (sample_urb 5 PIPE_BULK False)),
      (vhci_start 2)\<lparr>
         urbp_list_inbox := [],
         urbp_list_fetched := [\<lparr>urbp_urb = sample_urb 5 PIPE_BULK False, urbp_status = 0\<rparr>]\<rparr>,
      [Giveback (sample_urb 4 PIPE_BULK True) 0])"
  by (simp add: ioc_fetch_work_def has_work_def fetch_work_locked_def fetch_inbox.simps
      invalid_urb_def vhci_urb_giveback_def maybe_set_status_def move_to_fetched_def
      list_del_def vhci_start_def sample_urb_def)

theorem fetch_work_priority_witness:
  "ioc_fetch_work
      ((vhci_start 2)\<lparr>port_update := 4,
         urbp_list_inbox := [\<lparr>urbp_urb = sample_urb 5 PIPE_BULK False, urbp_status = 0\<rparr>],
         urbp_list_cancel := [\<lparr>urbp_urb = sample_urb 3 PIPE_BULK False, urbp_status = 0\<rparr>]\<rparr>)
      0 0 =
     (0, Some (CANCEL_URB 3),
      (vhci_start 2)\<lparr>port_update := 4,
         urbp_list_inbox := [\<lparr>urbp_urb = sample_urb 5 PIPE_BULK False, urbp_status = 0\<rparr>],
         urbp_list_cancel := [],
         urbp_list_canceling := [\<lparr>urbp_urb = sample_urb 3 PIPE_BULK False, urbp_status = 0\<rparr>]\<rparr>,
      [])
   \<and> ioc_fetch_work
      ((vhci_start 2)\<lparr>port_update := 4,
         urbp_list_inbox := [\<lparr>urbp_urb = sample_urb 5 PIPE_BULK False, urbp_status = 0\<rparr>]\<rparr>)
      0 0 =
     (0, Some (PORT_STAT 2 0 0 0),
      (vhci_start 2)\<lparr>port_update := 0, port_sched_offset := 2,
         urbp_list_inbox := [\<lparr>urbp_urb = sample_urb 5 PIPE_BULK False, urbp_status = 0\<rparr>]\<rparr>,
      [])
   \<and> ioc_fetch_work
      ((vhci_start 2)\<lparr>
         urbp_list_inbox := [\<lparr>urbp_urb = sample_urb 4 PIPE_BULK True, urbp_status = 0\<rparr>,
                             \<lparr>urbp_urb = sample_urb 5 PIPE_BULK False, urbp_status = 0\<rparr>]\<rparr>)
      0 0 =
     (0, Some (process_urb (sample_urb 5 PIPE_BULK False)),
      (vhci_start 2)\<lparr>
         urbp_list_inbox := [],
         urbp_list_fetched := [\<lparr>urbp_urb = sample_urb 5 PIPE_BULK False, urbp_status = 0\<rparr>]\<rparr>,
      [Giveback (sample_urb 4 PIPE_BULK True) 0])"
proof -
  let ?c = "\<lparr>urbp_urb = sample_urb 3 PIPE_BULK False, urbp_status = 0\<rparr>"
  let ?t = "\<lparr>urbp_urb = sample_urb 5 PIPE_BULK False, urbp_status = 0\<rparr>"
  let ?bad = "\<lparr>urbp_urb = sample_urb 4 PIPE_BULK True, urbp_status = 0\<rparr>"
  let ?st1 = "(vhci_start 2)\<lparr>port_update := 4, urbp_list_inbox := [?t],
                 urbp_list_cancel := [?c]\<rparr>"
  let ?st2 = "(vhci_start 2)\<lparr>port_update := 4, urbp_list_inbox := [?t]\<rparr>"
  let ?st3 = "(vhci_start 2)\<lparr>urbp_list_inbox := [?bad, ?t]\<rparr>"
  have lo: "linked_once ?st1" "linked_once ?st2" "linked_once ?st3"
    by (simp_all add: linked_once_def urb_ptrs_def vhci_start_def sample_urb_def)
  have pa: "ports_allocated ?st1" "ports_allocated ?st2" "ports_allocated ?st3"
    by (simp_all add: ports_allocated_def vhci_start_def)
  obtain w1 v1 e1 where r1: "ioc_fetch_work ?st1 0 0 = (0, w1, v1, e1)"
    using fetch_example_cancel by blast
  obtain w2 v2 e2 where r2: "ioc_fetch_work ?st2 0 0 = (0, w2, v2, e2)"
    using fetch_example_port by blast
  obtain w3 v3 e3 where r3: "ioc_fetch_work ?st3 0 0 = (0, w3, v3, e3)"
    using fetch_example_inbox by blast
  from fetch_work_priority [OF lo(1) pa(1) r1]
  have "w1 = Some (CANCEL_URB 3)"
    by (simp add: vhci_start_def sample_urb_def)
  moreover from fetch_work_priority [OF lo(2) pa(2) r2]
  have "\<exists>unit. w2 = Some unit" by blast
  moreover from fetch_work_priority [OF lo(3) pa(3) r3]
  have "\<exists>unit. w3 = Some unit" by blast
  ultimately show ?thesis using r1 r2 r3 fetch_example_cancel fetch_example_port fetch_example_inbox by simp
qed

text \<open>
  Claim C1 as stated returns the oldest URB of the inbox. With a malformed URB (an IN
  transfer of length zero, handle 4) queued before a well-formed one (handle 5) and
  no other work, the call returns the URB with handle 5.
\<close>

theorem fetch_work_priority_counterexample:
  "urbp_urb (hd (urbp_list_inbox
      ((vhci_start 2)\<lparr>
         urbp_list_inbox := [\<lparr>urbp_urb = sample_urb 4 PIPE_BULK True, urbp_status = 0\<rparr>,
                             \<lparr>urbp_urb = sample_urb 5 PIPE_BULK False, urbp_status = 0\<rparr>]\<rparr>)))
     = sample_urb 4 PIPE_BULK True
   \<and> fst (ioc_fetch_work
      ((vhci_start 2)\<lparr>
         urbp_list_inbox := [\<lparr>urbp_urb = sample_urb 4 PIPE_BULK True, urbp_status = 0\<rparr>,
                             \<lparr>urbp_urb = sample_urb 5 PIPE_BULK False, urbp_status = 0\<rparr>]\<rparr>)
      0 0) = 0
   \<and> fst (snd (ioc_fetch_work
      ((vhci_start 2)\<lparr>
         urbp_list_inbox := [\<lparr>urbp_urb = sample_urb 4 PIPE_BULK True, urbp_status = 0\<rparr>,
                             \<lparr>urbp_urb = sample_urb 5 PIPE_BULK False, urbp_status = 0\<rparr>]\<rparr>)
      0 0)) = Some (process_urb (sample_urb 5 PIPE_BULK False))
   \<and> process_urb (sample_urb 5 PIPE_BULK False) \<noteq> process_urb (sample_urb 4 PIPE_BULK True)"
proof -
  have "process_urb (sample_urb 5 PIPE_BULK False) \<noteq> process_urb (sample_urb 4 PIPE_BULK True)"
    by (simp add: process_urb_def sample_urb_def)
  then show ?thesis unfolding fetch_example_inbox by simp
qed

subsection \<open>Malformed transfers\<close>

text \<open>
  Claim C9 (the code departs from it). A control URB without a setup packet is
  submitted and then reached by \<^verbatim>\<open>ioc_fetch_work\<close>. The call gives it back at once
  and does not return it as work, as the claim says, but the status it is given
  back with is 0 and not \<^verbatim>\<open>-EPIPE\<close>: \<^verbatim>\<open>maybe_set_status(urbp, -EPIPE)\<close> finds the
  status 0 that \<^verbatim>\<open>vhci_urb_enqueue\<close> left there, not \<^verbatim>\<open>-EINPROGRESS\<close>, and writes
  nothing.
\<close>

theorem fetch_invalid_urb_status:
  "invalid_urb (sample_urb 7 PIPE_CONTROL False)
   \<and> vhci_urb_enqueue (vhci_start 2) (sample_urb 7 PIPE_CONTROL False) True 0 =
     (0,
      (vhci_start 2)\<lparr>urbp_list_inbox :=
         [\<lparr>urbp_urb = sample_urb 7 PIPE_CONTROL False, urbp_status = 0\<rparr>]\<rparr>,
      [WorkEvent])
   \<and> ioc_fetch_work
       ((vhci_start 2)\<lparr>urbp_list_inbox :=
         [\<lparr>urbp_urb = sample_urb 7 PIPE_CONTROL False, urbp_status = 0\<rparr>]\<rparr>) 0 0 =
     (- ENODATA, None, vhci_start 2, [Giveback (sample_urb 7 PIPE_CONTROL False) 0])"
proof -
  have bad: "invalid_urb (sample_urb 7 PIPE_CONTROL False)"
    by (simp add: invalid_urb_def sample_urb_def)
  have enq: "vhci_urb_enqueue (vhci_start 2) (sample_urb 7 PIPE_CONTROL False) True 0 =
     (0,
      (vhci_start 2)\<lparr>urbp_list_inbox :=
         [\<lparr>urbp_urb = sample_urb 7 PIPE_CONTROL False, urbp_status = 0\<rparr>]\<rparr>,
      [WorkEvent])"
    by (simp add: vhci_urb_enqueue_def sample_urb_def vhci_start_def)
  have empty: "fetch_inbox (vhci_start 2) = (- ENODATA, None, vhci_start 2, [])"
    by (subst fetch_inbox.simps) (simp add: vhci_start_def)
  have gb: "vhci_urb_giveback
       ((vhci_start 2)\<lparr>urbp_list_inbox :=
         [\<lparr>urbp_urb = sample_urb 7 PIPE_CONTROL False, urbp_status = 0\<rparr>]\<rparr>)
       (maybe_set_status \<lparr>urbp_urb = sample_urb 7 PIPE_CONTROL False, urbp_status = 0\<rparr> (- EPIPE))
     = (vhci_start 2, [Giveback (sample_urb 7 PIPE_CONTROL False) 0])"
    by (simp add: vhci_urb_giveback_def maybe_set_status_def list_del_def vhci_start_def)
  have "fetch_inbox
       ((vhci_start 2)\<lparr>urbp_list_inbox :=
         [\<lparr>urbp_urb = sample_urb 7 PIPE_CONTROL False, urbp_status = 0\<rparr>]\<rparr>) =
     (- ENODATA, None, vhci_start 2, [Giveback (sample_urb 7 PIPE_CONTROL False) 0])"
    by (subst fetch_inbox.simps) (simp add: bad gb empty)
  then have "ioc_fetch_work
       ((vhci_start 2)\<lparr>urbp_list_inbox :=
         [\<lparr>urbp_urb = sample_urb 7 PIPE_CONTROL False, urbp_status = 0\<rparr>]\<rparr>) 0 0 =
     (- ENODATA, None, vhci_start 2, [Giveback (sample_urb 7 PIPE_CONTROL False) 0])"
    by (simp add: ioc_fetch_work_def has_work_def fetch_work_locked_def vhci_start_def)
  with bad enq show ?thesis by simp
qed

subsection \<open>The order in which ports are reported\<close>

lemma fetch_inbox_work:
  "fetch_inbox vhc = (retval, w, vhc', effs) \<Longrightarrow> w = None \<or> (\<exists>urb. w = Some (process_urb urb))"
proof (induction vhc arbitrary: retval w vhc' effs rule: fetch_inbox.induct)
  case (1 vhc)
  show ?case
  proof (cases "urbp_list_inbox vhc")
    case Nil
    with "1.prems" show ?thesis by (subst (asm) fetch_inbox.simps) simp
  next
    case (Cons urbp rest)
    show ?thesis
    proof (cases "invalid_urb (urbp_urb urbp)")
      case False
      with Cons "1.prems" show ?thesis by (subst (asm) fetch_inbox.simps) auto
    next
      case True
      obtain r1 w1 v1 e1 where
        rec: "fetch_inbox (fst (vhci_urb_giveback vhc (maybe_set_status urbp (- EPIPE))))
          = (r1, w1, v1, e1)"
        by (metis prod_cases4)
      from "1.IH" [OF Cons True rec] have "w1 = None \<or> (\<exists>urb. w1 = Some (process_urb urb))" .
      moreover from "1.prems" Cons True rec have "w = w1"
        by (subst (asm) fetch_inbox.simps) simp
      ultimately show ?thesis by simp
    qed
  qed
qed

lemma mod_shift_distinct:
  fixes s j k N :: nat
  assumes "k < j" and "j < N"
  shows "(s + j) mod N \<noteq> (s + k) mod N"
proof
  assume "(s + j) mod N = (s + k) mod N"
  moreover have "s + k \<le> s + j" using assms(1) by simp
  ultimately have "N dvd (s + j) - (s + k)" by (simp add: mod_eq_dvd_iff_nat)
  then have "N dvd j - k" by simp
  moreover have "0 < j - k" "j - k < N" using assms by simp_all
  ultimately show False by (auto dest: dvd_imp_le)
qed

lemma fetch_first_pending:
  assumes "ports_allocated vhc" and "urbp_list_cancel vhc = []"
    and "(if port_sched_offset vhc \<ge> port_count vhc then 0 else port_sched_offset vhc) = s"
    and "s < port_count vhc"
    and "bit (port_update vhc) (s + 1)"
    and "timeout = 0 \<or> 0 < wret"
  shows "ioc_fetch_work vhc timeout wret =
     (0,
      Some (PORT_STAT (s + 1) (port_status (ports vhc ! s)) (port_change (ports vhc ! s))
        (port_flags (ports vhc ! s))),
      vhc\<lparr>port_update := port_update vhc AND NOT (push_bit (s + 1) 1),
          port_sched_offset := s + 1\<rparr>,
      [])"
proof -
  let ?vhc1 = "if port_sched_offset vhc \<ge> port_count vhc
               then vhc\<lparr>port_sched_offset := 0\<rparr> else vhc"
  from assms(1) have N31: "port_count vhc \<le> 31" by (simp add: ports_allocated_def)
  have v1: "port_count ?vhc1 = port_count vhc" "port_update ?vhc1 = port_update vhc"
    "port_sched_offset ?vhc1 = s"
    using assms(3) by (simp_all split: if_splits)
  have "port_count ?vhc1 \<le> 256" using N31 by simp
  from port_loop_unfold [OF this, of 0] assms(4,5)
  have found: "port_loop ?vhc1 0 = Some s"
    unfolding v1 by simp
  from assms(5) have nz: "port_update vhc \<noteq> 0" by (rule bit_imp_port_update)
  from assms(4) N31 have "(s + 1) mod 256 = s + 1" by simp
  with fetch_work_locked_ports [OF assms(2) nz] found
  have "fetch_work_locked vhc =
     (0,
      Some (PORT_STAT (s + 1) (port_status (ports vhc ! s)) (port_change (ports vhc ! s))
        (port_flags (ports vhc ! s))),
      vhc\<lparr>port_update := port_update vhc AND NOT (push_bit (s + 1) 1),
          port_sched_offset := s + 1\<rparr>,
      [])"
    by (simp add: Let_def)
  with nz assms(6) show ?thesis by (auto simp add: ioc_fetch_work_def has_work_def)
qed

lemma fetch_n_rotation:
  assumes "ports_allocated vhc" and "urbp_list_cancel vhc = []"
    and "port_count vhc = N" and "ports vhc = ps"
    and "k \<le> N" and "s < N"
    and "(if port_sched_offset vhc \<ge> N then 0 else port_sched_offset vhc) = (s + k) mod N"
    and "\<forall>j. k \<le> j \<and> j < N \<longrightarrow> bit (port_update vhc) ((s + j) mod N + 1)"
    and "length waits = N - k"
    and "\<forall>(timeout, wret) \<in> set waits. timeout = 0 \<or> 0 < wret"
  shows "fetch_n waits vhc =
     map (\<lambda>j. (0, Some (PORT_STAT ((s + j) mod N + 1)
                   (port_status (ps ! ((s + j) mod N)))
                   (port_change (ps ! ((s + j) mod N)))
                   (port_flags (ps ! ((s + j) mod N))))))
       [k..<N]"
  using assms
proof (induction waits arbitrary: vhc k)
  case Nil
  then show ?case by simp
next
  case (Cons wait waits)
  obtain timeout wret where wait: "wait = (timeout, wret)" by (cases wait)
  from Cons.prems(10) wait have good: "timeout = 0 \<or> 0 < wret" by simp
  from Cons.prems(9) have kN: "k < N" and len: "length waits = N - (k + 1)" by simp_all
  let ?p = "(s + k) mod N"
  let ?vhc' = "vhc\<lparr>port_update := port_update vhc AND NOT (push_bit (?p + 1) 1),
                   port_sched_offset := ?p + 1\<rparr>"
  have pN: "?p < N" using kN by simp
  have pending: "bit (port_update vhc) (?p + 1)" using Cons.prems(8) kN by simp
  have step: "ioc_fetch_work vhc timeout wret =
     (0,
      Some (PORT_STAT (?p + 1) (port_status (ps ! ?p)) (port_change (ps ! ?p))
        (port_flags (ps ! ?p))),
      ?vhc', [])"
    using fetch_first_pending [of vhc ?p timeout wret] Cons.prems(1,2,3,4,7) pN pending good
    by simp
  have offset': "(if port_sched_offset ?vhc' \<ge> N then 0 else port_sched_offset ?vhc')
      = (s + (k + 1)) mod N"
  proof (cases "?p + 1 < N")
    case True
    then have "(s + (k + 1)) mod N = ?p + 1"
      by (metis Suc_eq_plus1 add_Suc_right mod_Suc not_less_iff_gr_or_eq)
    with True show ?thesis by simp
  next
    case False
    with pN have "?p + 1 = N" by simp
    then have "(s + (k + 1)) mod N = 0"
      by (metis Suc_eq_plus1 add_Suc_right mod_Suc)
    with False show ?thesis by simp
  qed
  have bits': "\<forall>j. k + 1 \<le> j \<and> j < N \<longrightarrow> bit (port_update ?vhc') ((s + j) mod N + 1)"
  proof (intro allI impI)
    fix j assume j: "k + 1 \<le> j \<and> j < N"
    then have "(s + j) mod N \<noteq> ?p" by (intro mod_shift_distinct) simp_all
    moreover have "bit (port_update vhc) ((s + j) mod N + 1)" using Cons.prems(8) j by simp
    moreover have "(s + j) mod N + 1 < 32"
    proof -
      have "(s + j) mod N < N" using j by simp
      moreover have "N \<le> 31" using Cons.prems(1,3) by (simp add: ports_allocated_def)
      ultimately show ?thesis by simp
    qed
    ultimately show "bit (port_update ?vhc') ((s + j) mod N + 1)"
      by (simp add: bit_simps)
  qed
  have rest: "fetch_n waits ?vhc' =
     map (\<lambda>j. (0, Some (PORT_STAT ((s + j) mod N + 1)
                   (port_status (ps ! ((s + j) mod N)))
                   (port_change (ps ! ((s + j) mod N)))
                   (port_flags (ps ! ((s + j) mod N))))))
       [k + 1..<N]"
  proof (rule Cons.IH)
    show "ports_allocated ?vhc'" using Cons.prems(1) by (simp add: ports_allocated_def)
    show "urbp_list_cancel ?vhc' = []" using Cons.prems(2) by simp
    show "port_count ?vhc' = N" using Cons.prems(3) by simp
    show "ports ?vhc' = ps" using Cons.prems(4) by simp
    show "k + 1 \<le> N" using kN by simp
    show "s < N" by (rule Cons.prems(6))
    show "(if port_sched_offset ?vhc' \<ge> N then 0 else port_sched_offset ?vhc')
      = (s + (k + 1)) mod N" by (rule offset')
    show "\<forall>j. k + 1 \<le> j \<and> j < N \<longrightarrow> bit (port_update ?vhc') ((s + j) mod N + 1)"
      by (rule bits')
    show "length waits = N - (k + 1)" by (rule len)
    show "\<forall>(timeout, wret) \<in> set waits. timeout = 0 \<or> 0 < wret"
      using Cons.prems(10) by simp
  qed
  have "[k..<N] = k # [k + 1..<N]" using kN by (simp add: upt_conv_Cons)
  then show ?case
    unfolding wait by (simp only: fetch_n.simps step rest prod.case list.map)
qed

lemma rotation_distinct:
  fixes s N :: nat
  shows "distinct (map (\<lambda>k. (s + k) mod N + 1) [0..<N])"
proof -
  have "inj_on (\<lambda>k. (s + k) mod N + 1) {0..<N}"
  proof (rule inj_onI)
    fix x y assume xy: "x \<in> {0..<N}" "y \<in> {0..<N}"
      and eq: "(s + x) mod N + 1 = (s + y) mod N + 1"
    show "x = y"
    proof (rule ccontr)
      assume "x \<noteq> y"
      then consider "x < y" | "y < x" by linarith
      then show False
        using mod_shift_distinct [of x y N s] mod_shift_distinct [of y x N s] xy eq
        by cases auto
    qed
  qed
  then show ?thesis by (simp add: distinct_map)
qed

lemma rotation_set:
  fixes s N :: nat
  shows "set (map (\<lambda>k. (s + k) mod N + 1) [0..<N]) = {1..N}"
proof (rule card_subset_eq)
  show "finite {1..N}" by simp
  show "set (map (\<lambda>k. (s + k) mod N + 1) [0..<N]) \<subseteq> {1..N}"
  proof
    fix x assume "x \<in> set (map (\<lambda>k. (s + k) mod N + 1) [0..<N])"
    then obtain k where "k < N" "x = (s + k) mod N + 1" by auto
    moreover from \<open>k < N\<close> have "(s + k) mod N < N" by simp
    ultimately show "x \<in> {1..N}" by (simp add: Suc_le_eq)
  qed
  have "card (set (map (\<lambda>k. (s + k) mod N + 1) [0..<N]))
      = length (map (\<lambda>k. (s + k) mod N + 1) [0..<N])"
    using rotation_distinct [of s N] by (rule distinct_card)
  then show "card (set (map (\<lambda>k. (s + k) mod N + 1) [0..<N])) = card {1..N}" by simp
qed

lemma fetch_port_step:
  assumes "ports_allocated vhc" and "urbp_list_cancel vhc = []"
    and "s = (if port_sched_offset vhc \<ge> port_count vhc then 0 else port_sched_offset vhc)"
    and "ioc_fetch_work vhc timeout wret = (0, Some (PORT_STAT idx st ch fl), vhc', effs)"
  shows "(\<exists>m < port_count vhc.
            idx = (m + s) mod port_count vhc + 1
            \<and> bit (port_update vhc) idx
            \<and> (\<forall>j < m. \<not> bit (port_update vhc) ((j + s) mod port_count vhc + 1)))
         \<and> st = port_status (ports vhc ! (idx - 1))
         \<and> ch = port_change (ports vhc ! (idx - 1))
         \<and> fl = port_flags (ports vhc ! (idx - 1))
         \<and> vhc' = vhc\<lparr>port_update := port_update vhc AND NOT (push_bit idx 1),
                        port_sched_offset := idx\<rparr>"
proof -
  let ?vhc1 = "if port_sched_offset vhc \<ge> port_count vhc
               then vhc\<lparr>port_sched_offset := 0\<rparr> else vhc"
  from assms(1) have N31: "port_count vhc \<le> 31" by (simp add: ports_allocated_def)
  then have N: "port_count ?vhc1 \<le> 256" by simp
  have v1: "port_count ?vhc1 = port_count vhc" "port_update ?vhc1 = port_update vhc"
    "port_sched_offset ?vhc1 = s"
    using assms(3) by (simp_all split: if_splits)
  have locked: "fetch_work_locked vhc = (0, Some (PORT_STAT idx st ch fl), vhc', effs)"
    using assms(4) by (rule ioc_fetch_work_ok)
  have not_inbox: "fetch_inbox v \<noteq> (0, Some (PORT_STAT idx st ch fl), vhc', effs)" for v
    using fetch_inbox_work [of v 0 "Some (PORT_STAT idx st ch fl)" vhc' effs]
    by (auto simp: process_urb_def)
  have nz: "port_update vhc \<noteq> 0"
    using fetch_work_locked_idle [OF assms(2)] locked not_inbox by force
  obtain port where found: "port_loop ?vhc1 0 = Some port"
    using fetch_work_locked_ports [OF assms(2) nz] locked not_inbox [of ?vhc1]
    by (cases "port_loop ?vhc1 0") (simp_all add: Let_def)
  from port_loop_Some [OF found N] obtain m where m: "m < port_count vhc"
    "port = (m + s) mod port_count vhc" "bit (port_update vhc) (port + 1)"
    "\<forall>j. 0 \<le> j \<and> j < m \<longrightarrow> \<not> bit (port_update vhc) ((j + s) mod port_count vhc + 1)"
    unfolding v1 by blast
  from m(1,2) have "port < port_count vhc" by simp
  with N31 have "(port + 1) mod 256 = port + 1" by simp
  with fetch_work_locked_ports [OF assms(2) nz] found locked
  have res: "idx = port + 1" "st = port_status (ports vhc ! port)"
    "ch = port_change (ports vhc ! port)" "fl = port_flags (ports vhc ! port)"
    "vhc' = vhc\<lparr>port_update := port_update vhc AND NOT (push_bit (port + 1) 1),
                  port_sched_offset := port + 1\<rparr>"
    by (simp_all add: Let_def)
  from m res show ?thesis by auto
qed

text \<open>
  Claim C6 (the code departs from it for a fetch that waits without a timeout). Let
  \<open>s\<close> be the offset at which the search starts: \<^verbatim>\<open>port_sched_offset\<close>, which the
  previous port report set to the number of the port it served, or 0 if that is
  past the last port. A fetch that reports a port found no URB to cancel and
  reports the first port with a set update bit in the order \<open>s\<close>, \<open>s + 1\<close>, ... taken
  modulo the port count (ports counted from 0; the index reported counts from 1),
  with the registers of that port; it clears the update bit of that port and no
  other, and sets the offset to the number of the port served. So if there is no
  URB to cancel and the update bit of every port is set, as many fetches as there
  are ports report the ports \<open>s\<close>, \<open>s + 1\<close>, ... modulo the port count, each port
  once, provided that each of these fetches does not wait (timeout 0) or that its
  wait returns a positive value, as \<^verbatim>\<open>wait_event_interruptible_timeout\<close> does when
  there is work. A fetch with a negative timeout waits with
  \<^verbatim>\<open>wait_event_interruptible\<close>, which returns 0 when there is work and
  \<^verbatim>\<open>-ERESTARTSYS\<close> when a signal arrives; \<^verbatim>\<open>ioc_fetch_work\<close> takes the 0 for a
  timeout, so such a fetch returns \<^verbatim>\<open>-ETIMEDOUT\<close> (or \<^verbatim>\<open>-EINTR\<close>) and reports no
  port, whatever is pending.
\<close>

theorem port_round_robin:
  assumes "ports_allocated vhc"
    and "s = (if port_sched_offset vhc \<ge> port_count vhc then 0 else port_sched_offset vhc)"
  shows
    "(ioc_fetch_work vhc timeout wret = (0, Some (PORT_STAT idx st ch fl), vhc', effs) \<longrightarrow>
        urbp_list_cancel vhc = []
        \<and> (\<exists>m < port_count vhc.
            idx = (m + s) mod port_count vhc + 1
            \<and> bit (port_update vhc) idx
            \<and> (\<forall>j < m. \<not> bit (port_update vhc) ((j + s) mod port_count vhc + 1)))
        \<and> st = port_status (ports vhc ! (idx - 1))
        \<and> ch = port_change (ports vhc ! (idx - 1))
        \<and> fl = port_flags (ports vhc ! (idx - 1))
        \<and> vhc' = vhc\<lparr>port_update := port_update vhc AND NOT (push_bit idx 1),
                       port_sched_offset := idx\<rparr>
        \<and> (\<forall>n. bit (port_update vhc') n = (bit (port_update vhc) n \<and> n \<noteq> idx)))
     \<and> (urbp_list_cancel vhc = [] \<and> (\<forall>p < port_count vhc. bit (port_update vhc) (p + 1))
        \<and> length waits = port_count vhc
        \<and> (\<forall>(timeout, wret) \<in> set waits. timeout = 0 \<or> 0 < wret) \<longrightarrow>
        fetch_n waits vhc =
          map (\<lambda>k. (0, Some (PORT_STAT ((s + k) mod port_count vhc + 1)
                 (port_status (ports vhc ! ((s + k) mod port_count vhc)))
                 (port_change (ports vhc ! ((s + k) mod port_count vhc)))
                 (port_flags (ports vhc ! ((s + k) mod port_count vhc))))))
            [0..<port_count vhc]
        \<and> distinct (map (\<lambda>k. (s + k) mod port_count vhc + 1) [0..<port_count vhc])
        \<and> set (map (\<lambda>k. (s + k) mod port_count vhc + 1) [0..<port_count vhc])
            = {1..port_count vhc})
     \<and> (timeout < 0 \<and> (wret = 0 \<or> wret = - ERESTARTSYS) \<longrightarrow>
        ioc_fetch_work vhc timeout wret =
          (if wret = 0 then - ETIMEDOUT else - EINTR, None, vhc, []))"
proof (intro conjI impI)
  assume fetch: "ioc_fetch_work vhc timeout wret = (0, Some (PORT_STAT idx st ch fl), vhc', effs)"
  then have "fetch_work_locked vhc = (0, Some (PORT_STAT idx st ch fl), vhc', effs)"
    by (rule ioc_fetch_work_ok)
  then show c: "urbp_list_cancel vhc = []"
    unfolding fetch_work_locked_def by (cases "urbp_list_cancel vhc") simp_all
  note step = fetch_port_step [OF assms(1) c assms(2) fetch]
  from step show "\<exists>m < port_count vhc.
            idx = (m + s) mod port_count vhc + 1
            \<and> bit (port_update vhc) idx
            \<and> (\<forall>j < m. \<not> bit (port_update vhc) ((j + s) mod port_count vhc + 1))"
    by (rule conjunct1)
  from step show "st = port_status (ports vhc ! (idx - 1))" by simp
  from step show "ch = port_change (ports vhc ! (idx - 1))" by simp
  from step show "fl = port_flags (ports vhc ! (idx - 1))" by simp
  from step show v': "vhc' = vhc\<lparr>port_update := port_update vhc AND NOT (push_bit idx 1),
                       port_sched_offset := idx\<rparr>" by simp
  show "\<forall>n. bit (port_update vhc') n = (bit (port_update vhc) n \<and> n \<noteq> idx)"
  proof
    fix n
    have "bit (port_update vhc) n \<Longrightarrow> n < 32"
      using bit_imp_le_length [of "port_update vhc" n] by simp
    then show "bit (port_update vhc') n = (bit (port_update vhc) n \<and> n \<noteq> idx)"
      unfolding v' by (auto simp: bit_simps)
  qed
next
  assume hyp: "urbp_list_cancel vhc = [] \<and> (\<forall>p < port_count vhc. bit (port_update vhc) (p + 1))
        \<and> length waits = port_count vhc
        \<and> (\<forall>(timeout, wret) \<in> set waits. timeout = 0 \<or> 0 < wret)"
  then have c: "urbp_list_cancel vhc = []"
    and all: "\<forall>p < port_count vhc. bit (port_update vhc) (p + 1)"
    and len: "length waits = port_count vhc"
    and good: "\<forall>(timeout, wret) \<in> set waits. timeout = 0 \<or> 0 < wret" by simp_all
  show "fetch_n waits vhc =
          map (\<lambda>k. (0, Some (PORT_STAT ((s + k) mod port_count vhc + 1)
                 (port_status (ports vhc ! ((s + k) mod port_count vhc)))
                 (port_change (ports vhc ! ((s + k) mod port_count vhc)))
                 (port_flags (ports vhc ! ((s + k) mod port_count vhc))))))
            [0..<port_count vhc]"
  proof (cases "port_count vhc = 0")
    case True
    with len show ?thesis by simp
  next
    case False
    then have sN: "s < port_count vhc" using assms(2) by (simp split: if_splits)
    have "(if port_sched_offset vhc \<ge> port_count vhc then 0 else port_sched_offset vhc)
        = (s + 0) mod port_count vhc"
      using sN assms(2) by simp
    moreover have "\<forall>j. 0 \<le> j \<and> j < port_count vhc \<longrightarrow>
        bit (port_update vhc) ((s + j) mod port_count vhc + 1)"
      using all False by simp
    moreover have "length waits = port_count vhc - 0" using len by simp
    ultimately show ?thesis
      using assms(1) c sN good
      by (intro fetch_n_rotation) simp_all
  qed
next
  show "distinct (map (\<lambda>k. (s + k) mod port_count vhc + 1) [0..<port_count vhc])"
    by (rule rotation_distinct)
next
  show "set (map (\<lambda>k. (s + k) mod port_count vhc + 1) [0..<port_count vhc])
            = {1..port_count vhc}"
    by (rule rotation_set)
next
  assume "timeout < 0 \<and> (wret = 0 \<or> wret = - ERESTARTSYS)"
  then show "ioc_fetch_work vhc timeout wret =
          (if wret = 0 then - ETIMEDOUT else - EINTR, None, vhc, [])"
    by (auto simp: ioc_fetch_work_def)
qed

theorem port_round_robin_witness:
  "ioc_fetch_work ((vhci_start 3)\<lparr>port_sched_offset := 2, port_update := 14\<rparr>) 0 0 =
     (0, Some (PORT_STAT 3 0 0 0),
      (vhci_start 3)\<lparr>port_sched_offset := 3, port_update := 6\<rparr>, [])
   \<and> fetch_n [(0, 0), (50, 1), (0, 0)]
       ((vhci_start 3)\<lparr>port_sched_offset := 2, port_update := 14\<rparr>) =
     [(0, Some (PORT_STAT 3 0 0 0)), (0, Some (PORT_STAT 1 0 0 0)),
      (0, Some (PORT_STAT 2 0 0 0))]
   \<and> ioc_fetch_work ((vhci_start 3)\<lparr>port_sched_offset := 2, port_update := 14\<rparr>) (- 1) 0 =
     (- ETIMEDOUT, None, (vhci_start 3)\<lparr>port_sched_offset := 2, port_update := 14\<rparr>, [])"
proof -
  let ?st = "(vhci_start 3)\<lparr>port_sched_offset := 2, port_update := 14\<rparr>"
  have pa: "ports_allocated ?st" by (simp add: ports_allocated_def vhci_start_def)
  have c: "urbp_list_cancel ?st = []" by (simp add: vhci_start_def)
  have s: "2 = (if port_sched_offset ?st \<ge> port_count ?st then 0 else port_sched_offset ?st)"
    by (simp add: vhci_start_def)
  have N: "port_count ?st = 3" by (simp add: vhci_start_def)
  have all: "\<forall>p < port_count ?st. bit (port_update ?st) (p + 1)"
  proof (intro allI impI)
    fix p assume "p < port_count ?st"
    then consider "p = 0" | "p = 1" | "p = 2" unfolding N by linarith
    then show "bit (port_update ?st) (p + 1)"
      by cases (simp_all add: numeral_2_eq_2)
  qed
  have len: "length [(0::int, 0::int), (50, 1), (0, 0)] = port_count ?st" unfolding N by simp
  have good: "\<forall>(timeout, wret) \<in> set [(0::int, 0::int), (50, 1), (0, 0)]. timeout = 0 \<or> 0 < wret"
    by simp
  have first: "ioc_fetch_work ?st 0 0 =
     (0, Some (PORT_STAT 3 0 0 0),
      (vhci_start 3)\<lparr>port_sched_offset := 3, port_update := 6\<rparr>, [])"
    by (simp add: ioc_fetch_work_def has_work_def fetch_work_locked_def port_loop.simps
        vhci_start_def)
  note rr = port_round_robin [OF pa s, where timeout = "- 1" and wret = 0
      and waits = "[(0, 0), (50, 1), (0, 0)]"]
  from rr all c len good have "fetch_n [(0, 0), (50, 1), (0, 0)] ?st =
          map (\<lambda>k. (0, Some (PORT_STAT ((2 + k) mod port_count ?st + 1)
                 (port_status (ports ?st ! ((2 + k) mod port_count ?st)))
                 (port_change (ports ?st ! ((2 + k) mod port_count ?st)))
                 (port_flags (ports ?st ! ((2 + k) mod port_count ?st))))))
            [0..<port_count ?st]"
    by blast
  then have "fetch_n [(0, 0), (50, 1), (0, 0)] ?st =
     [(0, Some (PORT_STAT 3 0 0 0)), (0, Some (PORT_STAT 1 0 0 0)),
      (0, Some (PORT_STAT 2 0 0 0))]"
    unfolding N by (simp add: upt_rec vhci_start_def)
  moreover from rr have "ioc_fetch_work ?st (- 1) 0 = (- ETIMEDOUT, None, ?st, [])"
    by simp
  ultimately show ?thesis using first by simp
qed

subsection \<open>Cancelling a transfer\<close>

lemma find_ptr_None:
  "(find (\<lambda>entry. urb_ptr (urbp_urb entry) = ptr) xs = None) = (ptr \<notin> set (urb_ptrs xs))"
  by (auto simp: find_None_iff urb_ptrs_def)

lemma find_ptr_Some:
  "find (\<lambda>entry. urb_ptr (urbp_urb entry) = ptr) xs = Some urbp \<Longrightarrow>
   urbp \<in> set xs \<and> urb_ptr (urbp_urb urbp) = ptr"
  by (auto simp: find_Some_iff)

lemma list_del_from_inbox:
  assumes "linked_once vhc" and "urbp \<in> set (urbp_list_inbox vhc)"
  shows "list_del urbp vhc =
     vhc\<lparr>urbp_list_inbox :=
           filter (\<lambda>entry. urb_ptr (urbp_urb entry) \<noteq> urb_ptr (urbp_urb urbp))
             (urbp_list_inbox vhc)\<rparr>"
proof -
  let ?ptr = "urb_ptr (urbp_urb urbp)"
  from assms(2) have "?ptr \<in> set (urb_ptrs (urbp_list_inbox vhc))"
    by (auto simp: urb_ptrs_def)
  with assms(1) have
    "?ptr \<notin> set (urb_ptrs (urbp_list_fetched vhc))"
    "?ptr \<notin> set (urb_ptrs (urbp_list_cancel vhc))"
    "?ptr \<notin> set (urb_ptrs (urbp_list_canceling vhc))"
    by (auto simp: linked_once_def)
  then show ?thesis
    unfolding list_del_def Let_def by (simp add: filter_other_ptr)
qed

lemma list_del_from_fetched:
  assumes "linked_once vhc" and "urbp \<in> set (urbp_list_fetched vhc)"
  shows "list_del urbp vhc =
     vhc\<lparr>urbp_list_fetched :=
           filter (\<lambda>entry. urb_ptr (urbp_urb entry) \<noteq> urb_ptr (urbp_urb urbp))
             (urbp_list_fetched vhc)\<rparr>"
proof -
  let ?ptr = "urb_ptr (urbp_urb urbp)"
  from assms(2) have "?ptr \<in> set (urb_ptrs (urbp_list_fetched vhc))"
    by (auto simp: urb_ptrs_def)
  with assms(1) have
    "?ptr \<notin> set (urb_ptrs (urbp_list_inbox vhc))"
    "?ptr \<notin> set (urb_ptrs (urbp_list_cancel vhc))"
    "?ptr \<notin> set (urb_ptrs (urbp_list_canceling vhc))"
    by (auto simp: linked_once_def)
  then show ?thesis
    unfolding list_del_def Let_def by (simp add: filter_other_ptr)
qed

text \<open>
  Claim C4, as amended. \<^verbatim>\<open>vhci_urb_dequeue\<close> returns what \<^verbatim>\<open>usb_hcd_check_unlink_urb\<close>
  returns when that is not 0, and changes nothing. Otherwise it returns 0 in each of
  three cases. A URB found in the inbox is taken out of the inbox and given back at
  once, with the status its private status field holds: the function writes no
  status of its own. A URB found in the list of fetched URBs moves to the end of the
  list of URBs to cancel and the work queue is woken; it is not given back. For a
  URB in neither list the state is unchanged and nothing happens.
\<close>

theorem dequeue_cases:
  assumes "linked_once vhc"
  shows
    "(urb \<in> set (urb_ptrs (urbp_list_inbox vhc)) \<longrightarrow>
        (\<exists>urbp. urbp \<in> set (urbp_list_inbox vhc) \<and> urb_ptr (urbp_urb urbp) = urb
           \<and> vhci_urb_dequeue vhc urb 0 =
               (0,
                vhc\<lparr>urbp_list_inbox :=
                      filter (\<lambda>entry. urb_ptr (urbp_urb entry) \<noteq> urb) (urbp_list_inbox vhc)\<rparr>,
                [Giveback (urbp_urb urbp) (urbp_status urbp)])))
     \<and> (urb \<notin> set (urb_ptrs (urbp_list_inbox vhc))
         \<and> urb \<in> set (urb_ptrs (urbp_list_fetched vhc)) \<longrightarrow>
        (\<exists>entry. entry \<in> set (urbp_list_fetched vhc) \<and> urb_ptr (urbp_urb entry) = urb
           \<and> vhci_urb_dequeue vhc urb 0 =
               (0,
                vhc\<lparr>urbp_list_fetched :=
                      filter (\<lambda>entry. urb_ptr (urbp_urb entry) \<noteq> urb) (urbp_list_fetched vhc),
                    urbp_list_cancel := urbp_list_cancel vhc @ [entry]\<rparr>,
                [WorkEvent])))
     \<and> (urb \<notin> set (urb_ptrs (urbp_list_inbox vhc))
         \<and> urb \<notin> set (urb_ptrs (urbp_list_fetched vhc)) \<longrightarrow>
        vhci_urb_dequeue vhc urb 0 = (0, vhc, []))
     \<and> (retval \<noteq> 0 \<longrightarrow> vhci_urb_dequeue vhc urb retval = (retval, vhc, []))"
proof (intro conjI impI)
  assume "urb \<in> set (urb_ptrs (urbp_list_inbox vhc))"
  then obtain urbp where
    f: "find (\<lambda>entry. urb_ptr (urbp_urb entry) = urb) (urbp_list_inbox vhc) = Some urbp"
    using find_ptr_None [of urb "urbp_list_inbox vhc"] by auto
  from find_ptr_Some [OF f] have u: "urbp \<in> set (urbp_list_inbox vhc)"
    "urb_ptr (urbp_urb urbp) = urb" by simp_all
  have "vhci_urb_dequeue vhc urb 0 =
      (0, list_del urbp vhc, [Giveback (urbp_urb urbp) (urbp_status urbp)])"
    unfolding vhci_urb_dequeue_def by (simp add: f vhci_urb_giveback_def)
  with list_del_from_inbox [OF assms u(1)] u
  show "\<exists>urbp. urbp \<in> set (urbp_list_inbox vhc) \<and> urb_ptr (urbp_urb urbp) = urb
           \<and> vhci_urb_dequeue vhc urb 0 =
               (0,
                vhc\<lparr>urbp_list_inbox :=
                      filter (\<lambda>entry. urb_ptr (urbp_urb entry) \<noteq> urb) (urbp_list_inbox vhc)\<rparr>,
                [Giveback (urbp_urb urbp) (urbp_status urbp)])"
    by (intro exI [of _ urbp]) simp
next
  assume a: "urb \<notin> set (urb_ptrs (urbp_list_inbox vhc))
         \<and> urb \<in> set (urb_ptrs (urbp_list_fetched vhc))"
  then have n: "find (\<lambda>entry. urb_ptr (urbp_urb entry) = urb) (urbp_list_inbox vhc) = None"
    by (simp add: find_ptr_None)
  from a obtain entry where
    f: "find (\<lambda>entry. urb_ptr (urbp_urb entry) = urb) (urbp_list_fetched vhc) = Some entry"
    using find_ptr_None [of urb "urbp_list_fetched vhc"] by auto
  from find_ptr_Some [OF f] have e: "entry \<in> set (urbp_list_fetched vhc)"
    "urb_ptr (urbp_urb entry) = urb" by simp_all
  have "vhci_urb_dequeue vhc urb 0 =
      (0, (list_del entry vhc)\<lparr>urbp_list_cancel := urbp_list_cancel (list_del entry vhc) @ [entry]\<rparr>,
       [WorkEvent])"
    unfolding vhci_urb_dequeue_def by (simp add: n f)
  with list_del_from_fetched [OF assms e(1)] e
  show "\<exists>entry. entry \<in> set (urbp_list_fetched vhc) \<and> urb_ptr (urbp_urb entry) = urb
           \<and> vhci_urb_dequeue vhc urb 0 =
               (0,
                vhc\<lparr>urbp_list_fetched :=
                      filter (\<lambda>entry. urb_ptr (urbp_urb entry) \<noteq> urb) (urbp_list_fetched vhc),
                    urbp_list_cancel := urbp_list_cancel vhc @ [entry]\<rparr>,
                [WorkEvent])"
    by (intro exI [of _ entry]) simp
next
  assume "urb \<notin> set (urb_ptrs (urbp_list_inbox vhc))
         \<and> urb \<notin> set (urb_ptrs (urbp_list_fetched vhc))"
  then have "find (\<lambda>entry. urb_ptr (urbp_urb entry) = urb) (urbp_list_inbox vhc) = None"
    "find (\<lambda>entry. urb_ptr (urbp_urb entry) = urb) (urbp_list_fetched vhc) = None"
    by (simp_all add: find_ptr_None)
  then show "vhci_urb_dequeue vhc urb 0 = (0, vhc, [])"
    unfolding vhci_urb_dequeue_def by simp
next
  assume "retval \<noteq> 0"
  then show "vhci_urb_dequeue vhc urb retval = (retval, vhc, [])"
    unfolding vhci_urb_dequeue_def by simp
qed

theorem dequeue_cases_witness:
  "vhci_urb_dequeue
      ((vhci_start 2)\<lparr>urbp_list_inbox :=
          [\<lparr>urbp_urb = sample_urb 1 PIPE_BULK False, urbp_status = 0\<rparr>]\<rparr>) 1 0 =
     (0, vhci_start 2, [Giveback (sample_urb 1 PIPE_BULK False) 0])
   \<and> vhci_urb_dequeue
      ((vhci_start 2)\<lparr>urbp_list_fetched :=
          [\<lparr>urbp_urb = sample_urb 1 PIPE_BULK False, urbp_status = 0\<rparr>]\<rparr>) 1 0 =
     (0,
      (vhci_start 2)\<lparr>urbp_list_cancel :=
          [\<lparr>urbp_urb = sample_urb 1 PIPE_BULK False, urbp_status = 0\<rparr>]\<rparr>,
      [WorkEvent])
   \<and> vhci_urb_dequeue (vhci_start 2) 1 0 = (0, vhci_start 2, [])
   \<and> vhci_urb_dequeue (vhci_start 2) 1 (- 16) = (- 16, vhci_start 2, [])"
proof -
  let ?u = "\<lparr>urbp_urb = sample_urb 1 PIPE_BULK False, urbp_status = 0\<rparr>"
  have lo: "linked_once ((vhci_start 2)\<lparr>urbp_list_inbox := [?u]\<rparr>)"
    "linked_once ((vhci_start 2)\<lparr>urbp_list_fetched := [?u]\<rparr>)"
    "linked_once (vhci_start 2)"
    by (simp_all add: linked_once_def urb_ptrs_def vhci_start_def)
  from dequeue_cases [OF lo(1), of 1 0]
  have "vhci_urb_dequeue ((vhci_start 2)\<lparr>urbp_list_inbox := [?u]\<rparr>) 1 0 =
     (0, vhci_start 2, [Giveback (sample_urb 1 PIPE_BULK False) 0])"
    by (simp add: urb_ptrs_def sample_urb_def vhci_start_def)
  moreover from dequeue_cases [OF lo(2), of 1 0]
  have "vhci_urb_dequeue ((vhci_start 2)\<lparr>urbp_list_fetched := [?u]\<rparr>) 1 0 =
     (0, (vhci_start 2)\<lparr>urbp_list_cancel := [?u]\<rparr>, [WorkEvent])"
    by (simp add: urb_ptrs_def sample_urb_def vhci_start_def)
  moreover from dequeue_cases [OF lo(3), of 1 0]
  have "vhci_urb_dequeue (vhci_start 2) 1 0 = (0, vhci_start 2, [])"
    by (simp add: urb_ptrs_def vhci_start_def)
  moreover from dequeue_cases [OF lo(3), of 1 "- 16"]
  have "vhci_urb_dequeue (vhci_start 2) 1 (- 16) = (- 16, vhci_start 2, [])"
    by simp
  ultimately show ?thesis by simp
qed

text \<open>
  Claim C4 as stated finalizes a pending transfer with the status "canceled" and
  reports "not found" for an unknown handle. The status handed to
  \<^verbatim>\<open>usb_hcd_giveback_urb\<close> is the stored one, be it \<^verbatim>\<open>-EINPROGRESS\<close> or the 0 that
  \<^verbatim>\<open>vhci_urb_enqueue\<close> leaves (the USB core replaces it by the unlink status it
  recorded itself), and the return value for an unknown handle is 0.
\<close>

theorem dequeue_cases_counterexample:
  "vhci_urb_dequeue
      ((vhci_start 2)\<lparr>urbp_list_inbox :=
          [\<lparr>urbp_urb = sample_urb 1 PIPE_BULK False, urbp_status = - EINPROGRESS\<rparr>]\<rparr>) 1 0 =
     (0, vhci_start 2, [Giveback (sample_urb 1 PIPE_BULK False) (- EINPROGRESS)])
   \<and> vhci_urb_dequeue
      ((vhci_start 2)\<lparr>urbp_list_inbox :=
          [\<lparr>urbp_urb = sample_urb 1 PIPE_BULK False, urbp_status = 0\<rparr>]\<rparr>) 1 0 =
     (0, vhci_start 2, [Giveback (sample_urb 1 PIPE_BULK False) 0])
   \<and> - EINPROGRESS \<noteq> - ECANCELED \<and> (0::int) \<noteq> - ECANCELED
   \<and> vhci_urb_dequeue (vhci_start 2) 1 0 = (0, vhci_start 2, [])
   \<and> (0::int) \<noteq> - ENOENT"
  by (simp add: vhci_urb_dequeue_def vhci_urb_giveback_def list_del_def vhci_start_def
      sample_urb_def)

subsection \<open>Completions delivered by the worker\<close>








end
